theory Spec2Isabelle
  imports Complex_Main
begin

section \<open>heredity.py: exact inference over a pedigree\<close>

text \<open>
  The program enumerates every assignment of gene counts and trait values to the people of
  a pedigree, multiplies out the joint probability of each assignment, accumulates the
  results per person and normalises them.  The embedding below follows the functions of
  \<^verbatim>\<open>heredity.py\<close> one by one.
\<close>

subsection \<open>Numbers\<close>

text \<open>
  Python's \<^verbatim>\<open>float\<close> is IEEE-754 binary64: every arithmetic operation returns the exact
  result rounded to 53 significant bits, ties to the even neighbour.  A number is modelled
  as the \<^typ>\<open>real\<close> it denotes and every operation takes the rounding function as its
  first argument: \<open>binary64\<close> for the program as it runs, \<open>exact\<close> for arithmetic
  without rounding.  The exponent range is not bounded: underflow to zero, overflow to
  infinity and NaN are outside the model.  A product that the program rounds to a
  subnormal number or to 0.0, as the joint probability of some eighty persons can be,
  is a small positive number here; the loops of \<^verbatim>\<open>main\<close> cannot run on that many persons.
\<close>

type_synonym rounding = "real \<Rightarrow> real"

definition round_half_even :: "real \<Rightarrow> int" where
  "round_half_even y =
     (let f = \<lfloor>y\<rfloor>; d = y - of_int f
      in if d < 1 / 2 then f
         else if 1 / 2 < d then f + 1
         else if even f then f else f + 1)"

definition binary64 :: rounding where
  "binary64 x =
     (if x = 0 then 0
      else of_int (round_half_even (x * 2 powr (52 - of_int \<lfloor>log 2 \<bar>x\<bar>\<rfloor>)))
             * 2 powr (of_int \<lfloor>log 2 \<bar>x\<bar>\<rfloor> - 52))"

definition exact :: rounding where
  "exact x = x"

text \<open>A decimal literal of the source denotes the nearest representable number.\<close>

definition literal :: "rounding \<Rightarrow> real \<Rightarrow> real" where
  "literal fl q = fl q"

definition fadd :: "rounding \<Rightarrow> real \<Rightarrow> real \<Rightarrow> real" where
  "fadd fl a b = fl (a + b)"

definition fsub :: "rounding \<Rightarrow> real \<Rightarrow> real \<Rightarrow> real" where
  "fsub fl a b = fl (a - b)"

definition fmul :: "rounding \<Rightarrow> real \<Rightarrow> real \<Rightarrow> real" where
  "fmul fl a b = fl (a * b)"

datatype error = ZeroDivisionError | KeyError

text \<open>Python's \<^verbatim>\<open>/\<close> raises on a zero divisor, also between floats.\<close>

definition fdiv :: "rounding \<Rightarrow> real \<Rightarrow> real \<Rightarrow> error + real" where
  "fdiv fl a b = (if b = 0 then Inl ZeroDivisionError else Inr (fl (a / b)))"

text \<open>
  The built-in \<^verbatim>\<open>sum\<close>: additions from the left, starting at 0.  (CPython 3.12 and later
  add floats with a compensated sum; on the totals evaluated below, and whenever all but
  one of the summands are 0, both give the same number.)
\<close>

definition sum_values :: "rounding \<Rightarrow> real list \<Rightarrow> real" where
  "sum_values fl xs = fold (\<lambda>x s. fadd fl s x) xs 0"

subsection \<open>The probability tables\<close>

text \<open>
  \<^verbatim>\<open>PROBS["gene"]\<close>, \<^verbatim>\<open>PROBS["trait"]\<close> and \<^verbatim>\<open>PROBS["mutation"]\<close>.  The gene count is
  the key 0, 1 or 2; the tables are only ever read at these keys.
\<close>

definition PROBS_gene :: "rounding \<Rightarrow> nat \<Rightarrow> real" where
  "PROBS_gene fl genes =
     (if genes = 2 then literal fl (1 / 100)
      else if genes = 1 then literal fl (3 / 100)
      else literal fl (96 / 100))"

definition PROBS_trait :: "rounding \<Rightarrow> nat \<Rightarrow> bool \<Rightarrow> real" where
  "PROBS_trait fl genes t =
     (if genes = 2 then (if t then literal fl (65 / 100) else literal fl (35 / 100))
      else if genes = 1 then (if t then literal fl (56 / 100) else literal fl (44 / 100))
      else (if t then literal fl (1 / 100) else literal fl (99 / 100)))"

definition PROBS_mutation :: "rounding \<Rightarrow> real" where
  "PROBS_mutation fl = literal fl (1 / 100)"

subsection \<open>People\<close>

text \<open>
  One entry of the dictionary \<^verbatim>\<open>people\<close>.  A dictionary is an association list in
  insertion order, which is the order in which Python iterates over it; its keys are
  distinct.
\<close>

record person =
  name :: string
  mother :: "string option"
  father :: "string option"
  trait :: "bool option"

type_synonym people = "(string \<times> person) list"

subsection \<open>\<^verbatim>\<open>load_data\<close>\<close>

text \<open>
  A row of \<^verbatim>\<open>csv.DictReader\<close> maps the column names of the header to the fields of the
  line; reading a column that the header does not have raises \<^verbatim>\<open>KeyError\<close>.
  \<^verbatim>\<open>row["mother"] or None\<close> turns the empty string into \<^verbatim>\<open>None\<close>.  Opening and
  parsing the file, and lines with fewer fields than the header, are outside the model.
\<close>

type_synonym row = "string \<rightharpoonup> string"

definition lookup :: "row \<Rightarrow> string \<Rightarrow> error + string" where
  "lookup r k = (case r k of None \<Rightarrow> Inl KeyError | Some v \<Rightarrow> Inr v)"

definition or_None :: "string \<Rightarrow> string option" where
  "or_None s = (if s = [] then None else Some s)"

definition load_row :: "row \<Rightarrow> error + (string \<times> person)" where
  "load_row r =
     (case lookup r ''name'' of Inl e \<Rightarrow> Inl e | Inr n \<Rightarrow>
      case lookup r ''mother'' of Inl e \<Rightarrow> Inl e | Inr m \<Rightarrow>
      case lookup r ''father'' of Inl e \<Rightarrow> Inl e | Inr f \<Rightarrow>
      case lookup r ''trait'' of Inl e \<Rightarrow> Inl e | Inr t \<Rightarrow>
        Inr (n, \<lparr>name = n, mother = or_None m, father = or_None f,
                 trait = (if t = ''1'' then Some True
                          else if t = ''0'' then Some False else None)\<rparr>))"

text \<open>\<^verbatim>\<open>data[name] = ...\<close>: a key already present keeps its place and gets the new value.\<close>

fun dict_set :: "('k \<times> 'v) list \<Rightarrow> 'k \<Rightarrow> 'v \<Rightarrow> ('k \<times> 'v) list" where
  "dict_set [] k v = [(k, v)]"
| "dict_set ((k', v') # kvs) k v =
     (if k' = k then (k, v) # kvs else (k', v') # dict_set kvs k v)"

fun load_rows :: "people \<Rightarrow> row list \<Rightarrow> error + people" where
  "load_rows data [] = Inr data"
| "load_rows data (r # rs) =
     (case load_row r of
        Inl e \<Rightarrow> Inl e
      | Inr (n, p) \<Rightarrow> load_rows (dict_set data n p) rs)"

definition load_data :: "row list \<Rightarrow> error + people" where
  "load_data rows = load_rows [] rows"

subsection \<open>\<^verbatim>\<open>powerset\<close>\<close>

text \<open>
  \<^verbatim>\<open>itertools.combinations(s, r)\<close> yields the \<open>r\<close>-element subsequences of \<open>s\<close> in
  lexicographic order of their positions.  A Python set is modelled by the list of its
  elements in the order of iteration; \<^verbatim>\<open>set(people)\<close> is taken in the order of the
  dictionary and a set difference keeps the order of its left operand.  CPython iterates
  a set in the order of its hash table, so this is one of the orders in which the program
  can run; for two or more persons another order can change the last bits of the
  accumulated weights.
\<close>

fun combinations :: "'a list \<Rightarrow> nat \<Rightarrow> 'a list list" where
  "combinations xs 0 = [[]]"
| "combinations [] (Suc r) = []"
| "combinations (x # xs) (Suc r) =
     map (Cons x) (combinations xs r) @ combinations xs (Suc r)"

definition powerset :: "'a list \<Rightarrow> 'a list list" where
  "powerset s = concat (map (combinations s) [0 ..< length s + 1])"

definition set_minus :: "'a list \<Rightarrow> 'a list \<Rightarrow> 'a list" where
  "set_minus s t = filter (\<lambda>x. x \<notin> set t) s"

subsection \<open>\<^verbatim>\<open>joint_probability\<close>\<close>

text \<open>\<^verbatim>\<open>2 if person in two_genes else 1 if person in one_gene else 0\<close>\<close>

definition gene_count :: "string set \<Rightarrow> string set \<Rightarrow> string \<Rightarrow> nat" where
  "gene_count one_gene two_genes person =
     (if person \<in> two_genes then 2 else if person \<in> one_gene then 1 else 0)"

text \<open>
  The same expression for a parent, who may be \<^verbatim>\<open>None\<close>: \<^verbatim>\<open>None in two_genes\<close> is false,
  and so is the membership of a name that is nobody's.
\<close>

definition parent_gene_count :: "string set \<Rightarrow> string set \<Rightarrow> string option \<Rightarrow> nat" where
  "parent_gene_count one_gene two_genes parent =
     (case parent of None \<Rightarrow> 0 | Some n \<Rightarrow> gene_count one_gene two_genes n)"

definition get_gene_prob :: "rounding \<Rightarrow> nat \<Rightarrow> bool \<Rightarrow> real" where
  "get_gene_prob fl parent_genes is_mutation =
     (if parent_genes = 2 then
        (if \<not> is_mutation then fsub fl 1 (PROBS_mutation fl) else PROBS_mutation fl)
      else if parent_genes = 1 then literal fl (1 / 2)
      else
        (if \<not> is_mutation then PROBS_mutation fl else fsub fl 1 (PROBS_mutation fl)))"

text \<open>The value of \<^verbatim>\<open>gene_prob\<close> in one round of the loop.\<close>

definition gene_prob ::
  "rounding \<Rightarrow> person \<Rightarrow> string set \<Rightarrow> string set \<Rightarrow> string \<Rightarrow> real" where
  "gene_prob fl p one_gene two_genes person =
     (let genes = gene_count one_gene two_genes person
      in if mother p = None \<and> father p = None then PROBS_gene fl genes
         else
           (let mother_genes = parent_gene_count one_gene two_genes (mother p);
                father_genes = parent_gene_count one_gene two_genes (father p)
            in if genes = 2 then
                 fmul fl (get_gene_prob fl mother_genes False)
                         (get_gene_prob fl father_genes False)
               else if genes = 1 then
                 fadd fl
                   (fmul fl (get_gene_prob fl mother_genes False)
                            (get_gene_prob fl father_genes True))
                   (fmul fl (get_gene_prob fl mother_genes True)
                            (get_gene_prob fl father_genes False))
               else
                 fmul fl (get_gene_prob fl mother_genes True)
                         (get_gene_prob fl father_genes True)))"

definition trait_prob :: "rounding \<Rightarrow> string set \<Rightarrow> string set \<Rightarrow> string set \<Rightarrow> string \<Rightarrow> real" where
  "trait_prob fl one_gene two_genes have_trait person =
     PROBS_trait fl (gene_count one_gene two_genes person) (person \<in> have_trait)"

definition joint_probability ::
  "rounding \<Rightarrow> people \<Rightarrow> string set \<Rightarrow> string set \<Rightarrow> string set \<Rightarrow> real" where
  "joint_probability fl people one_gene two_genes have_trait =
     fold (\<lambda>(person, p) probability.
             fmul fl probability
               (fmul fl (gene_prob fl p one_gene two_genes person)
                        (trait_prob fl one_gene two_genes have_trait person)))
          people 1"

subsection \<open>\<^verbatim>\<open>update\<close> and \<^verbatim>\<open>normalize\<close>\<close>

text \<open>
  The two tables of one person: \<^verbatim>\<open>"gene"\<close> with the keys 2, 1, 0 and \<^verbatim>\<open>"trait"\<close> with
  the keys \<^verbatim>\<open>True\<close>, \<^verbatim>\<open>False\<close>, in this order.  No other key is read or written.
\<close>

record distribution =
  gene :: "nat \<Rightarrow> real"
  traits :: "bool \<Rightarrow> real"

type_synonym probabilities = "(string \<times> distribution) list"

definition update ::
  "rounding \<Rightarrow> probabilities \<Rightarrow> string set \<Rightarrow> string set \<Rightarrow> string set \<Rightarrow> real
     \<Rightarrow> probabilities" where
  "update fl probabilities one_gene two_genes have_trait p =
     map (\<lambda>(person, d).
            (let genes = gene_count one_gene two_genes person;
                 t = (person \<in> have_trait)
             in (person,
                 d\<lparr>gene := (gene d)(genes := fadd fl (gene d genes) p),
                   traits := (traits d)(t := fadd fl (traits d t) p)\<rparr>)))
         probabilities"

text \<open>\<^verbatim>\<open>for k in table: table[k] /= total\<close>\<close>

fun divide_slots :: "rounding \<Rightarrow> 'k list \<Rightarrow> ('k \<Rightarrow> real) \<Rightarrow> real \<Rightarrow> error + ('k \<Rightarrow> real)" where
  "divide_slots fl [] table divisor = Inr table"
| "divide_slots fl (k # ks) table divisor =
     (case fdiv fl (table k) divisor of
        Inl e \<Rightarrow> Inl e
      | Inr q \<Rightarrow> divide_slots fl ks (table(k := q)) divisor)"

definition gene_total :: "rounding \<Rightarrow> distribution \<Rightarrow> real" where
  "gene_total fl d = sum_values fl [gene d 2, gene d 1, gene d 0]"

definition trait_total :: "rounding \<Rightarrow> distribution \<Rightarrow> real" where
  "trait_total fl d = sum_values fl [traits d True, traits d False]"

fun normalize :: "rounding \<Rightarrow> probabilities \<Rightarrow> error + probabilities" where
  "normalize fl [] = Inr []"
| "normalize fl ((person, d) # rest) =
     (case divide_slots fl [2, 1, 0] (gene d) (gene_total fl d) of
        Inl e \<Rightarrow> Inl e
      | Inr g \<Rightarrow>
     (case divide_slots fl [True, False] (traits d) (trait_total fl d) of
        Inl e \<Rightarrow> Inl e
      | Inr t \<Rightarrow>
     (case normalize fl rest of
        Inl e \<Rightarrow> Inl e
      | Inr rest' \<Rightarrow> Inr ((person, \<lparr>gene = g, traits = t\<rparr>) # rest'))))"

subsection \<open>\<^verbatim>\<open>main\<close>\<close>

text \<open>The dictionary \<^verbatim>\<open>probabilities\<close> before the loops: every slot is 0.\<close>

definition initial :: "people \<Rightarrow> probabilities" where
  "initial people = map (\<lambda>(person, p). (person, \<lparr>gene = (\<lambda>_. 0), traits = (\<lambda>_. 0)\<rparr>)) people"

definition fails_evidence :: "people \<Rightarrow> string list \<Rightarrow> bool" where
  "fails_evidence people have_trait =
     list_ex (\<lambda>(person, p). trait p \<noteq> None \<and> trait p \<noteq> Some (person \<in> set have_trait)) people"

text \<open>
  The three nested loops of \<^verbatim>\<open>main\<close> run their body once for every triple of this list,
  in this order: a trait set that fails the evidence is skipped with all its gene sets.
\<close>

definition hypotheses :: "people \<Rightarrow> (string list \<times> string list \<times> string list) list" where
  "hypotheses people =
     (let names = map fst people
      in concat (map (\<lambda>have_trait.
           if fails_evidence people have_trait then []
           else concat (map (\<lambda>one_gene.
                  map (\<lambda>two_genes. (one_gene, two_genes, have_trait))
                      (powerset (set_minus names one_gene)))
                (powerset names)))
         (powerset names)))"

definition accumulate :: "rounding \<Rightarrow> people \<Rightarrow> probabilities" where
  "accumulate fl people =
     fold (\<lambda>(one_gene, two_genes, have_trait) probabilities.
             update fl probabilities (set one_gene) (set two_genes) (set have_trait)
               (joint_probability fl people (set one_gene) (set two_genes) (set have_trait)))
          (hypotheses people) (initial people)"

text \<open>
  \<^verbatim>\<open>main\<close> from the loaded dictionary to the normalised tables that it prints.
\<close>

definition main :: "rounding \<Rightarrow> people \<Rightarrow> error + probabilities" where
  "main fl people = normalize fl (accumulate fl people)"

subsection \<open>Notions of the specification\<close>

text \<open>
  These definitions follow the words of the specification, not the code; the theorems
  compare the code with them.

  A parent with two copies passes the gene on with probability \<open>1 - 0.01\<close>, a parent with
  one copy with probability \<open>0.5\<close>, a parent with no copy with probability \<open>0.01\<close>; it
  withholds the gene with probability \<open>0.01\<close>, \<open>0.5\<close> and \<open>1 - 0.01\<close>.  A child of a mother
  with \<open>m\<close> copies and a father with \<open>f\<close> copies has two copies when both pass the gene
  on, none when both withhold it, and one in the two mixed cases.
\<close>

definition transmits :: "rounding \<Rightarrow> nat \<Rightarrow> real" where
  "transmits fl copies =
     (if copies = 2 then fsub fl 1 (literal fl (1 / 100))
      else if copies = 1 then literal fl (1 / 2)
      else literal fl (1 / 100))"

definition withholds :: "rounding \<Rightarrow> nat \<Rightarrow> real" where
  "withholds fl copies =
     (if copies = 2 then literal fl (1 / 100)
      else if copies = 1 then literal fl (1 / 2)
      else fsub fl 1 (literal fl (1 / 100)))"

definition inherits :: "rounding \<Rightarrow> nat \<Rightarrow> nat \<Rightarrow> nat \<Rightarrow> real" where
  "inherits fl m f genes =
     (if genes = 2 then fmul fl (transmits fl m) (transmits fl f)
      else if genes = 1 then
        fadd fl (fmul fl (transmits fl m) (withholds fl f))
                (fmul fl (withholds fl m) (transmits fl f))
      else fmul fl (withholds fl m) (withholds fl f))"

text \<open>
  A trait set is consistent with the evidence when it holds exactly the observed value of
  every person whose trait is observed.  A hypothesis is a consistent trait set together
  with a set of persons with one copy and a disjoint set of persons with two copies; the
  evidence mass is the sum of the joint probabilities of all hypotheses.
\<close>

definition consistent :: "people \<Rightarrow> string set \<Rightarrow> bool" where
  "consistent people have_trait \<longleftrightarrow>
     (\<forall>(person, p)\<in>set people. trait p = None \<or> trait p = Some (person \<in> have_trait))"

definition consistent_hypotheses :: "people \<Rightarrow> (string set \<times> string set \<times> string set) set" where
  "consistent_hypotheses people =
     {(one_gene, two_genes, have_trait).
        have_trait \<subseteq> fst ` set people \<and> consistent people have_trait \<and>
        one_gene \<subseteq> fst ` set people \<and> two_genes \<subseteq> fst ` set people - one_gene}"

definition evidence_mass :: "rounding \<Rightarrow> people \<Rightarrow> real" where
  "evidence_mass fl people =
     (\<Sum>(one_gene, two_genes, have_trait)\<in>consistent_hypotheses people.
         joint_probability fl people one_gene two_genes have_trait)"

text \<open>The unit roundoff of binary64: the largest relative error of one rounding.\<close>

definition unit_roundoff :: real where
  "unit_roundoff = 1 / 2 ^ 53"

text \<open>
  The entry of a row that has the four columns: an empty parent field is no parent, the
  trait field \<^verbatim>\<open>1\<close> is an observed true, \<^verbatim>\<open>0\<close> an observed false and anything else is
  no observation.
\<close>

definition decoded :: "string \<Rightarrow> bool option" where
  "decoded t = (if t = ''1'' then Some True else if t = ''0'' then Some False else None)"

definition loaded :: "row \<Rightarrow> string \<times> person" where
  "loaded r =
     (the (r ''name''),
      \<lparr>name = the (r ''name''),
       mother = (if the (r ''mother'') = [] then None else Some (the (r ''mother''))),
       father = (if the (r ''father'') = [] then None else Some (the (r ''father''))),
       trait = decoded (the (r ''trait''))\<rparr>)"

subsection \<open>Sample inputs\<close>

definition harry_founder :: person where
  "harry_founder = \<lparr>name = ''Harry'', mother = None, father = None, trait = None\<rparr>"

text \<open>A child whose parents are not in the population.\<close>

definition harry_orphan :: person where
  "harry_orphan =
     \<lparr>name = ''Harry'', mother = Some ''Lily'', father = Some ''James'', trait = None\<rparr>"

text \<open>A row whose trait field is none of \<^verbatim>\<open>1\<close>, \<^verbatim>\<open>0\<close> and the empty string.\<close>

definition row_yes :: row where
  "row_yes = [''name'' \<mapsto> ''Harry'', ''mother'' \<mapsto> ''Lily'', ''father'' \<mapsto> ''James'',
              ''trait'' \<mapsto> ''yes'']"

text \<open>Two rows with the accepted trait fields.\<close>

definition row_one :: row where
  "row_one = [''name'' \<mapsto> ''James'', ''mother'' \<mapsto> [], ''father'' \<mapsto> [],
              ''trait'' \<mapsto> ''1'']"

definition row_zero :: row where
  "row_zero = [''name'' \<mapsto> ''Lily'', ''mother'' \<mapsto> [], ''father'' \<mapsto> [],
              ''trait'' \<mapsto> ''0'']"

text \<open>The tables of a person before any update, and tables that hold weight 1.\<close>

definition zero_distribution :: distribution where
  "zero_distribution = \<lparr>gene = (\<lambda>_. 0), traits = (\<lambda>_. 0)\<rparr>"

definition certain_distribution :: distribution where
  "certain_distribution = \<lparr>gene = (\<lambda>_. 0)(0 := 1), traits = (\<lambda>_. 0)(False := 1)\<rparr>"

text \<open>A population of one founder whose trait is not observed.\<close>

definition single_founder :: "string \<Rightarrow> people" where
  "single_founder n = [(n, \<lparr>name = n, mother = None, father = None, trait = None\<rparr>)]"

text \<open>
  The tables of that founder after the loops of \<^verbatim>\<open>main\<close> and after \<^verbatim>\<open>normalize\<close>, as
  binary64 computes them, and the tables after the loops in exact arithmetic.
\<close>

definition founder_weights_binary64 :: distribution where
  "founder_weights_binary64 =
     \<lparr>gene = (\<lambda>_. 0)(2 := 5764607523034235 / 576460752303423488,
                      1 := 8646911284551353 / 288230376151711744,
                      0 := 1080863910568919 / 1125899906842624),
      traits = (\<lambda>_. 0)(True := 2370694843847829 / 72057594037927936,
                        False := 2177715599815003 / 2251799813685248)\<rparr>"

definition founder_posterior_binary64 :: distribution where
  "founder_posterior_binary64 =
     \<lparr>gene = (\<lambda>_. 0)(2 := 5764607523034235 / 576460752303423488,
                      1 := 8646911284551353 / 288230376151711744,
                      0 := 1080863910568919 / 1125899906842624),
      traits = (\<lambda>_. 0)(True := 4741389687695659 / 144115188075855872,
                        False := 8710862399260013 / 9007199254740992)\<rparr>"

definition founder_weights_exact :: distribution where
  "founder_weights_exact =
     \<lparr>gene = (\<lambda>_. 0)(2 := 1 / 100, 1 := 3 / 100, 0 := 96 / 100),
      traits = (\<lambda>_. 0)(True := 329 / 10000, False := 9671 / 10000)\<rparr>"

text \<open>A founder whose trait is observed.\<close>

definition harry_observed :: person where
  "harry_observed = \<lparr>name = ''Harry'', mother = None, father = None, trait = Some True\<rparr>"

subsection \<open>Invariants of the tables\<close>

text \<open>The tables of one person after \<^verbatim>\<open>normalize\<close>, when neither total is zero.\<close>

definition normalized :: "rounding \<Rightarrow> distribution \<Rightarrow> distribution" where
  "normalized fl d =
     \<lparr>gene = (gene d)(2 := fl (gene d 2 / gene_total fl d),
                       1 := fl (gene d 1 / gene_total fl d),
                       0 := fl (gene d 0 / gene_total fl d)),
      traits = (traits d)(True := fl (traits d True / trait_total fl d),
                          False := fl (traits d False / trait_total fl d))\<rparr>"

text \<open>
  Every weight is a non-negative binary64 number; the slot that contradicts an observed
  trait is 0; every person has a positive gene weight and a positive trait weight.
\<close>

definition weights_ok :: "probabilities \<Rightarrow> bool" where
  "weights_ok T \<longleftrightarrow>
     (\<forall>(person, d)\<in>set T.
        (\<forall>k. 0 \<le> gene d k \<and> binary64 (gene d k) = gene d k) \<and>
        (\<forall>t. 0 \<le> traits d t \<and> binary64 (traits d t) = traits d t))"

definition heeds_evidence :: "people \<Rightarrow> probabilities \<Rightarrow> bool" where
  "heeds_evidence people T \<longleftrightarrow>
     (\<forall>(person, d)\<in>set T. \<forall>p v.
        (person, p) \<in> set people \<and> trait p = Some v \<longrightarrow> traits d (\<not> v) = 0)"

definition weights_pos :: "probabilities \<Rightarrow> bool" where
  "weights_pos T \<longleftrightarrow>
     (\<forall>(person, d)\<in>set T.
        (0 < gene d 0 \<or> 0 < gene d 1 \<or> 0 < gene d 2) \<and>
        (0 < traits d True \<or> 0 < traits d False))"

section \<open>Properties\<close>

subsection \<open>Rounding to binary64\<close>

text \<open>
  The rounding of a number is found from any power of two that scales it into the range
  of a 53-bit significand; a positive number rounds to a positive number, and a number
  that is already rounded is not changed by rounding it again.
\<close>

lemma floor_log2_eq:
  assumes "2 powr (of_int k) \<le> x" "x < 2 powr (of_int k + 1)"
  shows "\<lfloor>log 2 x\<rfloor> = k"
proof -
  have xpos: "0 < x" using assms(1) by (smt (verit) powr_gt_zero)
  have "of_int k \<le> log 2 x" using assms(1) xpos by (simp add: le_log_iff)
  moreover have "log 2 x < of_int k + 1" using assms(2) xpos by (simp add: log_less_iff)
  ultimately show ?thesis by linarith
qed

lemma two_powr_diff: "(2::real) powr (of_int (int a - int b)) = 2 ^ a / 2 ^ b"
proof -
  have "(2::real) powr (of_int (int a - int b)) = 2 powr (real a - real b)" by simp
  also have "\<dots> = 2 powr (real a) / 2 powr (real b)" by (rule powr_diff)
  also have "\<dots> = 2 ^ a / 2 ^ b" by (simp only: powr_realpow zero_less_numeral)
  finally show ?thesis .
qed

lemma binary64_eval:
  assumes "2 ^ 52 \<le> \<bar>x\<bar> * 2 ^ n" "\<bar>x\<bar> * 2 ^ n < 2 ^ 53"
  shows "binary64 x = of_int (round_half_even (x * 2 ^ n)) / 2 ^ n"
proof -
  have x0: "x \<noteq> 0" using assms(1) by auto
  have pn: "(0::real) < 2 ^ n" by simp
  have p: "(2::real) powr (of_int (int 52 - int n)) = 2 ^ 52 / 2 ^ n"
    by (rule two_powr_diff)
  have p1: "(2::real) powr (of_int (int 52 - int n) + 1) = 2 ^ 53 / 2 ^ n"
  proof -
    have "(2::real) powr (of_int (int 52 - int n) + 1) = 2 powr (of_int (int 53 - int n))"
      by simp
    then show ?thesis by (simp only: two_powr_diff)
  qed
  have "2 ^ 52 / 2 ^ n \<le> \<bar>x\<bar>"
    using assms(1) pn by (simp only: pos_divide_le_eq)
  then have a: "2 powr (of_int (int 52 - int n)) \<le> \<bar>x\<bar>" by (simp only: p)
  have "\<bar>x\<bar> < 2 ^ 53 / 2 ^ n"
    using assms(2) pn by (simp only: pos_less_divide_eq)
  then have b: "\<bar>x\<bar> < 2 powr (of_int (int 52 - int n) + 1)" by (simp only: p1)
  have e: "\<lfloor>log 2 \<bar>x\<bar>\<rfloor> = int 52 - int n" using a b by (rule floor_log2_eq)
  have q: "(2::real) powr (52 - of_int (int 52 - int n)) = 2 ^ n"
  proof -
    have "(52::real) - of_int (int 52 - int n) = real n" by simp
    then show ?thesis by (simp only: powr_realpow zero_less_numeral)
  qed
  have q': "(2::real) powr (of_int (int 52 - int n) - 52) = 1 / 2 ^ n"
  proof -
    have "of_int (int 52 - int n) - (52::real) = - real n" by simp
    then have "(2::real) powr (of_int (int 52 - int n) - 52) = 2 powr (- real n)" by simp
    also have "\<dots> = 1 / 2 powr (real n)" by (simp only: powr_minus_divide)
    also have "\<dots> = 1 / 2 ^ n" by (simp only: powr_realpow zero_less_numeral)
    finally show ?thesis .
  qed
  have "binary64 x = of_int (round_half_even (x * 2 powr (52 - of_int (int 52 - int n))))
             * 2 powr (of_int (int 52 - int n) - 52)"
    using x0 by (simp only: binary64_def e if_False)
  then show ?thesis by (simp only: q q' times_divide_eq_right mult_1_right)
qed


lemma floor_log2_bounds:
  assumes "0 < x"
  shows "2 powr (of_int \<lfloor>log 2 x\<rfloor>) \<le> x" and "x < 2 powr (of_int \<lfloor>log 2 x\<rfloor> + 1)"
proof -
  have "of_int \<lfloor>log 2 x\<rfloor> \<le> log 2 x" by simp
  then show "2 powr (of_int \<lfloor>log 2 x\<rfloor>) \<le> x" using assms by (simp add: powr_le_iff)
  have "log 2 x < of_int \<lfloor>log 2 x\<rfloor> + 1" by linarith
  then show "x < 2 powr (of_int \<lfloor>log 2 x\<rfloor> + 1)" using assms by (simp add: less_powr_iff)
qed

lemma round_half_even_int: "round_half_even (of_int m) = m"
  by (simp add: round_half_even_def)

lemma round_half_even_ge: "of_int m \<le> y \<Longrightarrow> m \<le> round_half_even y"
proof -
  assume "of_int m \<le> y"
  then have "m \<le> \<lfloor>y\<rfloor>" by (simp add: le_floor_iff)
  then show ?thesis by (simp add: round_half_even_def Let_def)
qed

lemma round_half_even_le: "y \<le> of_int m \<Longrightarrow> round_half_even y \<le> m"
proof -
  assume a: "y \<le> of_int m"
  show ?thesis
  proof (cases "y = of_int m")
    case True
    then show ?thesis by (simp add: round_half_even_int)
  next
    case False
    with a have "y < of_int m" by simp
    then have "\<lfloor>y\<rfloor> < m" by (simp add: floor_less_iff)
    then have "\<lfloor>y\<rfloor> + 1 \<le> m" by simp
    then show ?thesis by (simp add: round_half_even_def Let_def)
  qed
qed

lemma binary64_zero: "binary64 0 = 0"
  by (simp add: binary64_def)

lemma significand_bounds:
  assumes "0 < x"
  shows "2 ^ 52 \<le> x * 2 powr (52 - of_int \<lfloor>log 2 x\<rfloor>)"
    and "x * 2 powr (52 - of_int \<lfloor>log 2 x\<rfloor>) \<le> 2 ^ 53"
proof -
  let ?e = "of_int \<lfloor>log 2 x\<rfloor> :: real"
  have s: "(0::real) < 2 powr (52 - ?e)" by simp
  have "2 powr ?e * 2 powr (52 - ?e) \<le> x * 2 powr (52 - ?e)"
    using floor_log2_bounds(1)[OF assms] s by (simp only: mult_le_cancel_right_pos)
  moreover have "2 powr ?e * 2 powr (52 - ?e) = (2::real) powr 52"
    by (simp add: powr_add [symmetric])
  moreover have "(2::real) powr 52 = 2 ^ 52"
    using powr_realpow[of 2 52] by simp
  ultimately show "2 ^ 52 \<le> x * 2 powr (52 - ?e)" by simp
  have "x * 2 powr (52 - ?e) \<le> 2 powr (?e + 1) * 2 powr (52 - ?e)"
    using floor_log2_bounds(2)[OF assms] s by (simp only: mult_le_cancel_right_pos less_imp_le)
  moreover have "2 powr (?e + 1) * 2 powr (52 - ?e) = (2::real) powr 53"
    by (simp add: powr_add [symmetric])
  moreover have "(2::real) powr 53 = 2 ^ 53"
    using powr_realpow[of 2 53] by simp
  ultimately show "x * 2 powr (52 - ?e) \<le> 2 ^ 53" by simp
qed

lemma binary64_repr:
  assumes "0 < x"
  shows "\<exists>m e. 2 ^ 52 \<le> m \<and> m \<le> 2 ^ 53 \<and> binary64 x = of_int m * 2 powr (of_int e)"
proof -
  let ?e = "\<lfloor>log 2 x\<rfloor>"
  let ?y = "x * 2 powr (52 - of_int ?e)"
  let ?m = "round_half_even ?y"
  have "of_int (2 ^ 52 :: int) \<le> ?y" using significand_bounds(1)[OF assms] by simp
  then have lo: "2 ^ 52 \<le> ?m" by (rule round_half_even_ge)
  have "?y \<le> of_int (2 ^ 53 :: int)" using significand_bounds(2)[OF assms] by simp
  then have hi: "?m \<le> 2 ^ 53" by (rule round_half_even_le)
  have "binary64 x = of_int ?m * 2 powr (of_int (?e - 52))"
    using assms by (simp add: binary64_def)
  with lo hi show ?thesis by blast
qed

lemma binary64_pos: "0 < x \<Longrightarrow> 0 < binary64 x"
proof -
  assume "0 < x"
  then obtain m e where m: "2 ^ 52 \<le> m" and b: "binary64 x = of_int m * 2 powr (of_int e)"
    using binary64_repr by blast
  have "(0::int) < 2 ^ 52" by simp
  with m have "0 < m" by linarith
  then show ?thesis unfolding b by simp
qed

lemma binary64_nonneg: "0 \<le> x \<Longrightarrow> 0 \<le> binary64 x"
  using binary64_pos[of x] binary64_zero by (cases "x = 0") auto

lemma binary64_of_repr:
  assumes lo: "2 ^ 52 \<le> m" and hi: "m \<le> 2 ^ 53"
  shows "binary64 (of_int m * 2 powr (of_int e)) = of_int m * 2 powr (of_int e)"
proof -
  let ?x = "of_int m * 2 powr (of_int e) :: real"
  have "(0::int) < 2 ^ 52" by simp
  with lo have mpos: "0 < m" by linarith
  then have xpos: "0 < ?x" by simp
  have p52: "(2::real) powr 52 = 2 ^ 52" using powr_realpow[of 2 52] by simp
  have p53: "(2::real) powr 53 = 2 ^ 53" using powr_realpow[of 2 53] by simp
  show ?thesis
  proof (cases "m = 2 ^ 53")
    case True
    have x: "?x = 2 powr (of_int (e + 53))"
      unfolding True by (simp add: powr_add p53)
    have fl: "\<lfloor>log 2 \<bar>?x\<bar>\<rfloor> = e + 53"
      unfolding x by (simp del: of_int_add)
    have y: "?x * 2 powr (52 - of_int (e + 53)) = of_int (2 ^ 52)"
      unfolding x by (simp add: powr_add [symmetric] p52)
    have "binary64 ?x = of_int (2 ^ 52) * 2 powr (of_int (e + 53) - 52)"
      using xpos mpos unfolding binary64_def fl y round_half_even_int by simp
    also have "\<dots> = 2 powr 52 * 2 powr (of_int (e + 53) - 52)"
      by (simp only: of_int_power of_int_numeral p52)
    also have "\<dots> = 2 powr (52 + (of_int (e + 53) - 52))"
      by (simp only: powr_add)
    also have "(52::real) + (of_int (e + 53) - 52) = of_int (e + 53)"
      by simp
    finally show ?thesis by (simp only: x)
  next
    case False
    with hi have hi': "m < 2 ^ 53" by simp
    have "2 powr 52 * 2 powr (of_int e) \<le> ?x"
      using lo by (simp add: p52)
    then have a: "2 powr (of_int (e + 52)) \<le> ?x" by (simp add: powr_add add.commute)
    have "of_int m < (2 ^ 53 :: real)" using hi' by (metis of_int_less_iff of_int_numeral of_int_power)
    then have "?x < 2 powr 53 * 2 powr (of_int e)" by (simp add: p53)
    then have b: "?x < 2 powr (of_int (e + 52) + 1)" by (simp add: powr_add add.commute)
    have "\<lfloor>log 2 ?x\<rfloor> = e + 52" using a b by (rule floor_log2_eq)
    then have fl: "\<lfloor>log 2 \<bar>?x\<bar>\<rfloor> = e + 52" using xpos by simp
    have y: "?x * 2 powr (52 - of_int (e + 52)) = of_int m"
      by (simp add: powr_add [symmetric])
    have "binary64 ?x = of_int m * 2 powr (of_int (e + 52) - 52)"
      using xpos mpos unfolding binary64_def fl y round_half_even_int by simp
    then show ?thesis by simp
  qed
qed

lemma binary64_idem: "0 \<le> x \<Longrightarrow> binary64 (binary64 x) = binary64 x"
proof (cases "x = 0")
  case True
  then show ?thesis by (simp add: binary64_zero)
next
  case False
  assume "0 \<le> x"
  with False have "0 < x" by simp
  then obtain m e where "2 ^ 52 \<le> m" "m \<le> 2 ^ 53" "binary64 x = of_int m * 2 powr (of_int e)"
    using binary64_repr by blast
  then show ?thesis using binary64_of_repr by simp
qed

lemma binary64_one: "binary64 1 = 1"
  using binary64_of_repr[of "2 ^ 52" "- 52"] powr_realpow[of 2 52]
  by (simp add: powr_minus)

text \<open>The scalings that evaluate the rounding of the numbers between \<open>2\<^sup>-\<^sup>1\<^sup>0\<close> and 2.\<close>

lemmas binary64_evals =
  binary64_eval[of _ 52] binary64_eval[of _ 53] binary64_eval[of _ 54] binary64_eval[of _ 55]
  binary64_eval[of _ 56] binary64_eval[of _ 57] binary64_eval[of _ 58] binary64_eval[of _ 59]
  binary64_eval[of _ 60] binary64_eval[of _ 61] binary64_eval[of _ 62]

subsection \<open>The gene probability of one person\<close>

lemma joint_probability_snoc:
  "joint_probability fl (people @ [(person, p)]) one_gene two_genes have_trait =
     fmul fl (joint_probability fl people one_gene two_genes have_trait)
       (fmul fl (gene_prob fl p one_gene two_genes person)
                (trait_prob fl one_gene two_genes have_trait person))"
  by (simp add: joint_probability_def)

text \<open>
  Claim C5.  For a founder, a person with neither mother nor father, the gene probability
  that \<^verbatim>\<open>joint_probability\<close> multiplies in is the entry of \<^verbatim>\<open>PROBS["gene"]\<close> for the
  person's gene count: 0.96 for no copy, 0.03 for one copy, 0.01 for two copies.
\<close>

theorem founder_gene_prob:
  assumes "mother p = None" and "father p = None"
  shows "gene_prob fl p one_gene two_genes person =
           (if gene_count one_gene two_genes person = 0 then literal fl (96 / 100)
            else if gene_count one_gene two_genes person = 1 then literal fl (3 / 100)
            else literal fl (1 / 100))
         \<and> gene_count one_gene two_genes person \<in> {0, 1, 2}
         \<and> joint_probability fl (people @ [(person, p)]) one_gene two_genes have_trait =
             fmul fl (joint_probability fl people one_gene two_genes have_trait)
               (fmul fl (PROBS_gene fl (gene_count one_gene two_genes person))
                        (trait_prob fl one_gene two_genes have_trait person))"
  using assms
  by (simp add: joint_probability_snoc gene_prob_def PROBS_gene_def gene_count_def)

theorem founder_gene_prob_witness:
  "mother harry_founder = None \<and> father harry_founder = None \<and>
   gene_prob exact harry_founder {} {''Harry''} ''Harry'' = 1 / 100 \<and>
   gene_prob exact harry_founder {''Harry''} {} ''Harry'' = 3 / 100 \<and>
   gene_prob exact harry_founder {} {} ''Harry'' = 96 / 100"
  using founder_gene_prob [of harry_founder exact "{}" "{''Harry''}" "''Harry''" "[]" "{}"]
        founder_gene_prob [of harry_founder exact "{''Harry''}" "{}" "''Harry''" "[]" "{}"]
        founder_gene_prob [of harry_founder exact "{}" "{}" "''Harry''" "[]" "{}"]
  by (simp add: harry_founder_def gene_count_def literal_def exact_def)

lemma get_gene_prob_transmits: "get_gene_prob fl g False = transmits fl g"
  by (simp add: get_gene_prob_def transmits_def PROBS_mutation_def)

lemma get_gene_prob_withholds: "get_gene_prob fl g True = withholds fl g"
  by (simp add: get_gene_prob_def withholds_def PROBS_mutation_def)

lemma gene_prob_child:
  assumes "\<not> (mother p = None \<and> father p = None)"
  shows "gene_prob fl p one_gene two_genes person =
           inherits fl
             (case mother p of None \<Rightarrow> 0
              | Some m \<Rightarrow> if m \<in> two_genes then 2 else if m \<in> one_gene then 1 else 0)
             (case father p of None \<Rightarrow> 0
              | Some f \<Rightarrow> if f \<in> two_genes then 2 else if f \<in> one_gene then 1 else 0)
             (if person \<in> two_genes then 2 else if person \<in> one_gene then 1 else 0)"
proof -
  have nf: "(mother p = None \<and> father p = None) = False"
    using assms by simp
  show ?thesis
    unfolding gene_prob_def Let_def nf inherits_def get_gene_prob_transmits
      get_gene_prob_withholds parent_gene_count_def gene_count_def
    by simp
qed

text \<open>
  Claim C1.  For a person with a parent, the gene probability is the probability that a
  child of these parents inherits the person's number of copies: each parent passes the
  gene on with probability \<open>1 - 0.01\<close>, \<open>0.5\<close> or \<open>0.01\<close> when it is in \<^verbatim>\<open>two_genes\<close>, in
  \<^verbatim>\<open>one_gene\<close> or in neither, the child has two copies when both pass it on, none when
  both withhold it, and one copy in the two mixed cases; \<^verbatim>\<open>joint_probability\<close> multiplies
  this probability in.
\<close>

theorem child_gene_prob:
  assumes "\<not> (mother p = None \<and> father p = None)"
  shows "gene_prob fl p one_gene two_genes person =
           inherits fl
             (case mother p of None \<Rightarrow> 0
              | Some m \<Rightarrow> if m \<in> two_genes then 2 else if m \<in> one_gene then 1 else 0)
             (case father p of None \<Rightarrow> 0
              | Some f \<Rightarrow> if f \<in> two_genes then 2 else if f \<in> one_gene then 1 else 0)
             (if person \<in> two_genes then 2 else if person \<in> one_gene then 1 else 0)
         \<and> joint_probability fl (people @ [(person, p)]) one_gene two_genes have_trait =
             fmul fl (joint_probability fl people one_gene two_genes have_trait)
               (fmul fl (gene_prob fl p one_gene two_genes person)
                        (trait_prob fl one_gene two_genes have_trait person))"
  using gene_prob_child [OF assms] by (simp only: joint_probability_snoc simp_thms)

theorem child_gene_prob_witness:
  "\<not> (mother harry_orphan = None \<and> father harry_orphan = None) \<and>
   gene_prob exact harry_orphan {} {''Lily'', ''Harry''} ''Harry'' = (1 - 1 / 100) * (1 / 100) \<and>
   gene_prob exact harry_orphan {''Harry''} {''Lily''} ''Harry''
     = (1 - 1 / 100) * (1 - 1 / 100) + (1 / 100) * (1 / 100) \<and>
   gene_prob exact harry_orphan {''James''} {''Lily''} ''Harry'' = (1 / 100) * (1 / 2) \<and>
   gene_prob exact harry_orphan {''Lily''} {''James'', ''Harry''} ''Harry''
     = (1 / 2) * (1 - 1 / 100) \<and>
   gene_prob exact harry_orphan {''Lily'', ''Harry''} {} ''Harry''
     = (1 / 2) * (1 - 1 / 100) + (1 / 2) * (1 / 100)"
  using child_gene_prob [of harry_orphan exact "{}" "{''Lily'', ''Harry''}" "''Harry''" "[]" "{}"]
        child_gene_prob [of harry_orphan exact "{''Harry''}" "{''Lily''}" "''Harry''" "[]" "{}"]
        child_gene_prob [of harry_orphan exact "{''James''}" "{''Lily''}" "''Harry''" "[]" "{}"]
        child_gene_prob [of harry_orphan exact "{''Lily''}" "{''James'', ''Harry''}" "''Harry''"
          "[]" "{}"]
        child_gene_prob [of harry_orphan exact "{''Lily'', ''Harry''}" "{}" "''Harry''" "[]" "{}"]
  by (simp add: harry_orphan_def inherits_def transmits_def withholds_def literal_def
      exact_def fmul_def fadd_def fsub_def)

subsection \<open>Joint probabilities are positive\<close>

lemma literal_pos: "0 < q \<Longrightarrow> 0 < literal binary64 q"
  by (simp add: literal_def binary64_pos)

lemma fmul_pos: "0 < a \<Longrightarrow> 0 < b \<Longrightarrow> 0 < fmul binary64 a b"
  by (simp add: fmul_def binary64_pos)

lemma fadd_pos: "0 < a \<Longrightarrow> 0 < b \<Longrightarrow> 0 < fadd binary64 a b"
  by (simp add: fadd_def binary64_pos)

lemma mutation_value: "PROBS_mutation binary64 = 5764607523034235 / 576460752303423488"
  by (simp add: PROBS_mutation_def literal_def binary64_evals round_half_even_def Let_def)

lemma no_mutation_value:
  "fsub binary64 1 (PROBS_mutation binary64) = 4458563631096791 / 4503599627370496"
  unfolding mutation_value fsub_def
  by (simp add: binary64_evals round_half_even_def Let_def)

lemma half_value: "literal binary64 (1 / 2) = 1 / 2"
  by (simp add: literal_def binary64_evals round_half_even_def Let_def)

lemma get_gene_prob_pos: "0 < get_gene_prob binary64 parent_genes is_mutation"
  by (simp add: get_gene_prob_def mutation_value no_mutation_value [unfolded mutation_value]
      half_value)

lemma PROBS_gene_pos: "0 < PROBS_gene binary64 genes"
  by (simp add: PROBS_gene_def literal_pos)

lemma PROBS_trait_pos: "0 < PROBS_trait binary64 genes t"
  by (simp add: PROBS_trait_def literal_pos)

lemma gene_prob_pos: "0 < gene_prob binary64 p one_gene two_genes person"
  by (simp add: gene_prob_def Let_def PROBS_gene_pos get_gene_prob_pos fmul_pos fadd_pos)

lemma trait_prob_pos: "0 < trait_prob binary64 one_gene two_genes have_trait person"
  by (simp add: trait_prob_def PROBS_trait_pos)

lemma fold_probability_pos:
  "0 < a \<Longrightarrow>
   0 < fold (\<lambda>(person, p) probability.
               fmul binary64 probability
                 (fmul binary64 (gene_prob binary64 p one_gene two_genes person)
                    (trait_prob binary64 one_gene two_genes have_trait person)))
          people a"
  by (induction people arbitrary: a)
     (auto simp add: fmul_pos gene_prob_pos trait_prob_pos)

lemma joint_probability_pos:
  "0 < joint_probability binary64 people one_gene two_genes have_trait"
  unfolding joint_probability_def by (rule fold_probability_pos) simp

text \<open>
  Claim C4 says that \<^verbatim>\<open>joint_probability\<close> fails when a parent is not a member of the
  population.  For Harry, whose parents Lily and James are nobody's entries, it returns
  0.9702989999999999.
\<close>

theorem dangling_parent_counterexample:
  "joint_probability binary64 [(''Harry'', harry_orphan)] {} {} {}
     = 8739676429675929 / 9007199254740992"
proof -
  have "joint_probability binary64 [(''Harry'', harry_orphan)] {} {} {}
     = binary64 (binary64 (binary64 (4458563631096791 / 4503599627370496
            * (4458563631096791 / 4503599627370496)) * binary64 (99 / 100)))"
    by (simp add: joint_probability_def harry_orphan_def gene_prob_def trait_prob_def
        gene_count_def parent_gene_count_def get_gene_prob_def mutation_value
        no_mutation_value [unfolded mutation_value] PROBS_trait_def fmul_def literal_def)
  also have "\<dots> = 8739676429675929 / 9007199254740992"
    by (simp add: binary64_evals round_half_even_def Let_def)
  finally show ?thesis .
qed

text \<open>
  Claim C4, amended.  \<^verbatim>\<open>joint_probability\<close> does not fail on a parent who is not a member
  of the population: the name of such a parent is in neither gene set, so the gene
  probability of the child is computed as for a parent with no copy of the gene.
\<close>

theorem dangling_parent_counts_zero:
  assumes "parent \<notin> fst ` set people"
      and "one_gene \<subseteq> fst ` set people" and "two_genes \<subseteq> fst ` set people"
  shows "(mother p = Some parent \<longrightarrow>
           gene_prob fl p one_gene two_genes person =
             inherits fl 0
               (case father p of None \<Rightarrow> 0
                | Some f \<Rightarrow> if f \<in> two_genes then 2 else if f \<in> one_gene then 1 else 0)
               (if person \<in> two_genes then 2 else if person \<in> one_gene then 1 else 0)) \<and>
         (father p = Some parent \<longrightarrow>
           gene_prob fl p one_gene two_genes person =
             inherits fl
               (case mother p of None \<Rightarrow> 0
                | Some m \<Rightarrow> if m \<in> two_genes then 2 else if m \<in> one_gene then 1 else 0)
               0
               (if person \<in> two_genes then 2 else if person \<in> one_gene then 1 else 0)) \<and>
         joint_probability fl (before @ [(person, p)]) one_gene two_genes have_trait =
           fmul fl (joint_probability fl before one_gene two_genes have_trait)
             (fmul fl (gene_prob fl p one_gene two_genes person)
                      (trait_prob fl one_gene two_genes have_trait person))"
proof -
  have n: "parent \<notin> one_gene" "parent \<notin> two_genes" using assms by auto
  show ?thesis
  proof (intro conjI impI)
    show "joint_probability fl (before @ [(person, p)]) one_gene two_genes have_trait =
           fmul fl (joint_probability fl before one_gene two_genes have_trait)
             (fmul fl (gene_prob fl p one_gene two_genes person)
                      (trait_prob fl one_gene two_genes have_trait person))"
      by (rule joint_probability_snoc)
  next
    assume m: "mother p = Some parent"
    then have "\<not> (mother p = None \<and> father p = None)" by simp
    from gene_prob_child [OF this, of fl one_gene two_genes person]
    show "gene_prob fl p one_gene two_genes person =
             inherits fl 0
               (case father p of None \<Rightarrow> 0
                | Some f \<Rightarrow> if f \<in> two_genes then 2 else if f \<in> one_gene then 1 else 0)
               (if person \<in> two_genes then 2 else if person \<in> one_gene then 1 else 0)"
      using n by (simp add: m)
  next
    assume f: "father p = Some parent"
    then have "\<not> (mother p = None \<and> father p = None)" by simp
    from gene_prob_child [OF this, of fl one_gene two_genes person]
    show "gene_prob fl p one_gene two_genes person =
             inherits fl
               (case mother p of None \<Rightarrow> 0
                | Some m \<Rightarrow> if m \<in> two_genes then 2 else if m \<in> one_gene then 1 else 0)
               0
               (if person \<in> two_genes then 2 else if person \<in> one_gene then 1 else 0)"
      using n by (simp add: f)
  qed
qed

theorem dangling_parent_counts_zero_witness:
  "''Lily'' \<notin> fst ` set [(''Harry'', harry_orphan)] \<and>
   ''James'' \<notin> fst ` set [(''Harry'', harry_orphan)] \<and>
   {''Harry''} \<subseteq> fst ` set [(''Harry'', harry_orphan)] \<and>
   {} \<subseteq> fst ` set [(''Harry'', harry_orphan)] \<and>
   mother harry_orphan = Some ''Lily'' \<and>
   father harry_orphan = Some ''James'' \<and>
   gene_prob exact harry_orphan {''Harry''} {} ''Harry''
     = (1 / 100) * (1 - 1 / 100) + (1 - 1 / 100) * (1 / 100) \<and>
   gene_prob exact harry_orphan {} {''Harry''} ''Harry'' = (1 / 100) * (1 / 100)"
  using dangling_parent_counts_zero [of "''Lily''" "[(''Harry'', harry_orphan)]"
      "{''Harry''}" "{}" harry_orphan exact "''Harry''" "[]" "{}"]
    dangling_parent_counts_zero [of "''James''" "[(''Harry'', harry_orphan)]"
      "{}" "{''Harry''}" harry_orphan exact "''Harry''" "[]" "{}"]
  by (simp add: harry_orphan_def inherits_def transmits_def withholds_def literal_def
      exact_def fmul_def fadd_def fsub_def)

subsection \<open>\<^verbatim>\<open>load_data\<close>\<close>

text \<open>
  Claim C9 says that the loader fails on a trait field that is none of the accepted
  encodings.  It loads the row with the trait unobserved.
\<close>

theorem load_data_trait_counterexample:
  "load_data [row_yes] =
     Inr [(''Harry'', \<lparr>name = ''Harry'', mother = Some ''Lily'', father = Some ''James'',
                        trait = None\<rparr>)]"
  by (simp add: load_data_def load_row_def lookup_def or_None_def row_yes_def)

lemma map_of_dict_set: "map_of (dict_set kvs k v) = (map_of kvs)(k \<mapsto> v)"
  by (induction kvs) (auto simp add: fun_eq_iff)

lemma keys_dict_set: "fst ` set (dict_set kvs k v) = insert k (fst ` set kvs)"
proof (induction kvs)
  case Nil
  then show ?case by simp
next
  case (Cons a kvs)
  obtain k' v' where a: "a = (k', v')" by (cases a)
  show ?case
  proof (cases "k' = k")
    case True
    then show ?thesis unfolding a by simp
  next
    case False
    then have "fst ` set (dict_set (a # kvs) k v) = insert k' (fst ` set (dict_set kvs k v))"
      unfolding a by simp
    also have "\<dots> = insert k' (insert k (fst ` set kvs))" by (simp only: Cons.IH)
    finally show ?thesis unfolding a by auto
  qed
qed

lemma distinct_dict_set:
  "distinct (map fst kvs) \<Longrightarrow> distinct (map fst (dict_set kvs k v))"
proof (induction kvs)
  case Nil
  then show ?case by simp
next
  case (Cons a kvs)
  obtain k' v' where a: "a = (k', v')" by (cases a)
  show ?case
  proof (cases "k' = k")
    case True
    with Cons.prems a show ?thesis by simp
  next
    case False
    have "k' \<notin> fst ` set (dict_set kvs k v)"
      using Cons.prems a False by (simp add: keys_dict_set)
    with Cons a False show ?thesis by simp
  qed
qed

lemma load_row_complete:
  assumes "r ''name'' \<noteq> None" "r ''mother'' \<noteq> None" "r ''father'' \<noteq> None"
    "r ''trait'' \<noteq> None"
  shows "load_row r = Inr (loaded r)"
  using assms
  by (auto simp add: load_row_def lookup_def loaded_def or_None_def decoded_def)

lemma load_rows_complete:
  assumes "\<forall>r\<in>set rows. r ''name'' \<noteq> None \<and> r ''mother'' \<noteq> None \<and>
                          r ''father'' \<noteq> None \<and> r ''trait'' \<noteq> None"
      and "distinct (map fst data)"
  shows "\<exists>data'. load_rows data rows = Inr data' \<and> distinct (map fst data') \<and>
           map_of data' = map_of (rev (map loaded rows) @ data)"
  using assms
proof (induction rows arbitrary: data)
  case Nil
  then show ?case by simp
next
  case (Cons r rows)
  obtain n p where l: "loaded r = (n, p)" by (cases "loaded r")
  have lr: "load_row r = Inr (n, p)"
    using Cons.prems(1) load_row_complete [of r] l by simp
  have d: "distinct (map fst (dict_set data n p))"
    using Cons.prems(2) by (rule distinct_dict_set)
  have c: "\<forall>r\<in>set rows. r ''name'' \<noteq> None \<and> r ''mother'' \<noteq> None \<and>
                          r ''father'' \<noteq> None \<and> r ''trait'' \<noteq> None"
    using Cons.prems(1) by simp
  from Cons.IH [OF c d] obtain data' where
    1: "load_rows (dict_set data n p) rows = Inr data'" and 2: "distinct (map fst data')"
    and 3: "map_of data' = map_of (rev (map loaded rows) @ dict_set data n p)"
    by blast
  have "map_of (rev (map loaded rows) @ dict_set data n p)
          = map_of (rev (map loaded (r # rows)) @ data)"
    by (simp add: l map_of_dict_set fun_eq_iff map_add_def split: option.splits)
  with 1 2 3 show ?case by (simp add: lr)
qed

text \<open>
  Claim C9, amended.  On rows that have the four columns \<^verbatim>\<open>load_data\<close> never fails,
  whatever the trait fields are.  It returns a dictionary in which every name of a row
  has the entry of the last row of that name, and nothing else: the trait of that entry
  is observed true for the field \<^verbatim>\<open>1\<close>, observed false for \<^verbatim>\<open>0\<close> and unobserved for any
  other field.
\<close>

theorem load_data_never_fails_on_trait:
  assumes "\<forall>r\<in>set rows. r ''name'' \<noteq> None \<and> r ''mother'' \<noteq> None \<and>
                          r ''father'' \<noteq> None \<and> r ''trait'' \<noteq> None"
  shows "\<exists>data. load_data rows = Inr data \<and> distinct (map fst data) \<and>
           map_of data = map_of (rev (map loaded rows)) \<and>
           (\<forall>r\<in>set rows. \<exists>p. (fst (loaded r), p) \<in> set data) \<and>
           (\<forall>(n, p)\<in>set data. \<exists>r\<in>set rows. r ''name'' = Some n \<and>
              (\<exists>t. r ''trait'' = Some t \<and>
                 trait p = (if t = ''1'' then Some True
                            else if t = ''0'' then Some False else None)))"
proof -
  from load_rows_complete [OF assms, of "[]"] obtain data where
    1: "load_data rows = Inr data" and 2: "distinct (map fst data)"
    and 3: "map_of data = map_of (rev (map loaded rows))"
    unfolding load_data_def by auto
  have 4: "\<exists>p. (fst (loaded r), p) \<in> set data" if "r \<in> set rows" for r
  proof -
    have "fst (loaded r) \<in> fst ` set (rev (map loaded rows))" using that by force
    then have "map_of (rev (map loaded rows)) (fst (loaded r)) \<noteq> None"
      by (simp add: map_of_eq_None_iff)
    then obtain p where "map_of data (fst (loaded r)) = Some p" unfolding 3 [symmetric] by auto
    then show ?thesis by (blast dest: map_of_SomeD)
  qed
  have 5: "\<exists>r\<in>set rows. r ''name'' = Some n \<and>
              (\<exists>t. r ''trait'' = Some t \<and>
                 trait p = (if t = ''1'' then Some True
                            else if t = ''0'' then Some False else None))"
    if "(n, p) \<in> set data" for n p
  proof -
    have "map_of data n = Some p" using that 2 by simp
    then have "map_of (rev (map loaded rows)) n = Some p" unfolding 3 .
    then have "(n, p) \<in> set (rev (map loaded rows))" by (rule map_of_SomeD)
    then obtain r where r: "r \<in> set rows" and l: "loaded r = (n, p)" by auto
    from assms r obtain n' t where "r ''name'' = Some n'" "r ''trait'' = Some t" by auto
    with l have "r ''name'' = Some n \<and> r ''trait'' = Some t \<and>
                 trait p = (if t = ''1'' then Some True
                            else if t = ''0'' then Some False else None)"
      by (auto simp add: loaded_def decoded_def)
    with r show ?thesis by blast
  qed
  from 1 2 3 4 5 show ?thesis by blast
qed

theorem load_data_never_fails_on_trait_witness:
  "row_yes ''name'' \<noteq> None \<and> row_yes ''mother'' \<noteq> None \<and>
   row_yes ''father'' \<noteq> None \<and> row_yes ''trait'' \<noteq> None \<and>
   row_one ''name'' \<noteq> None \<and> row_one ''mother'' \<noteq> None \<and>
   row_one ''father'' \<noteq> None \<and> row_one ''trait'' \<noteq> None \<and>
   row_zero ''name'' \<noteq> None \<and> row_zero ''mother'' \<noteq> None \<and>
   row_zero ''father'' \<noteq> None \<and> row_zero ''trait'' \<noteq> None \<and>
   (\<exists>data. load_data [row_yes, row_one, row_zero] = Inr data \<and>
      map_of data ''Harry'' =
        Some \<lparr>name = ''Harry'', mother = Some ''Lily'', father = Some ''James'',
               trait = None\<rparr> \<and>
      map_of data ''James'' =
        Some \<lparr>name = ''James'', mother = None, father = None, trait = Some True\<rparr> \<and>
      map_of data ''Lily'' =
        Some \<lparr>name = ''Lily'', mother = None, father = None, trait = Some False\<rparr> \<and>
      map_of data ''Ron'' = None)"
proof -
  have h: "\<forall>r\<in>set [row_yes, row_one, row_zero]. r ''name'' \<noteq> None \<and> r ''mother'' \<noteq> None \<and>
                          r ''father'' \<noteq> None \<and> r ''trait'' \<noteq> None"
    by (simp add: row_yes_def row_one_def row_zero_def)
  from load_data_never_fails_on_trait [OF h] obtain data where
    "load_data [row_yes, row_one, row_zero] = Inr data"
    "map_of data = map_of (rev (map loaded [row_yes, row_one, row_zero]))"
    by blast
  then show ?thesis
    using h by (simp add: loaded_def decoded_def row_yes_def row_one_def row_zero_def)
qed

subsection \<open>The empty population\<close>

text \<open>
  Claim C8 says that an empty population yields no hypothesis.  The power set of the empty
  set has one element, so the loops of \<^verbatim>\<open>main\<close> run their body once.
\<close>

theorem hypotheses_empty_counterexample: "hypotheses [] \<noteq> []"
  by (simp add: hypotheses_def powerset_def fails_evidence_def set_minus_def)

text \<open>
  Claim C8, amended.  For an empty population the enumeration yields exactly one
  hypothesis, with no person in any of the three sets; its joint probability is 1, the
  update changes nothing, and \<^verbatim>\<open>main\<close> ends with an empty table.
\<close>

theorem hypotheses_empty:
  "hypotheses [] = [([], [], [])] \<and>
   joint_probability fl [] (set []) (set []) (set []) = 1 \<and>
   accumulate fl [] = [] \<and>
   main fl [] = Inr []"
  by (simp add: hypotheses_def powerset_def fails_evidence_def set_minus_def
      joint_probability_def accumulate_def initial_def update_def main_def)

subsection \<open>\<^verbatim>\<open>update\<close>\<close>

text \<open>
  Claim C10, amended.  \<^verbatim>\<open>update\<close> keeps every person in place; for each of them it
  replaces the gene slot of the assigned gene count and the trait slot of the assigned
  trait value by the sum of the slot and \<open>p\<close>, and it leaves every other slot unchanged.
  When the additions are exact, the gene total and the trait total of each person grow
  by exactly \<open>p\<close>.
\<close>

theorem update_frame:
  assumes "i < length probabilities" and "probabilities ! i = (person, d)"
  shows "length (update fl probabilities one_gene two_genes have_trait p) = length probabilities \<and>
    (\<exists>d'. update fl probabilities one_gene two_genes have_trait p ! i = (person, d') \<and>
       gene d' (gene_count one_gene two_genes person) =
         fadd fl (gene d (gene_count one_gene two_genes person)) p \<and>
       (\<forall>k. k \<noteq> gene_count one_gene two_genes person \<longrightarrow> gene d' k = gene d k) \<and>
       traits d' (person \<in> have_trait) = fadd fl (traits d (person \<in> have_trait)) p \<and>
       traits d' (person \<notin> have_trait) = traits d (person \<notin> have_trait) \<and>
       (fl = exact \<longrightarrow>
          gene_total fl d' = gene_total fl d + p \<and> trait_total fl d' = trait_total fl d + p))"
proof -
  have g: "gene_count one_gene two_genes person \<in> {0, 1, 2}"
    by (simp add: gene_count_def)
  show ?thesis
    using assms g
    by (auto simp add: update_def Let_def gene_total_def trait_total_def sum_values_def
        fadd_def exact_def)
qed

theorem update_frame_witness:
  "(0::nat) < length [(''Harry'', certain_distribution)] \<and>
   [(''Harry'', certain_distribution)] ! 0 = (''Harry'', certain_distribution) \<and>
   (\<exists>d'. update exact [(''Harry'', certain_distribution)] {''Harry''} {} {} (1 / 4) ! 0
            = (''Harry'', d') \<and>
         gene d' 1 = 1 / 4 \<and> gene d' 0 = 1 \<and> gene d' 2 = 0 \<and>
         traits d' False = 5 / 4 \<and> traits d' True = 0 \<and>
         gene_total exact d' = 5 / 4 \<and> trait_total exact d' = 5 / 4)"
  using update_frame [of 0 "[(''Harry'', certain_distribution)]" "''Harry''"
      certain_distribution exact "{''Harry''}" "{}" "{}" "1 / 4"]
  by (auto simp add: certain_distribution_def gene_count_def fadd_def exact_def
      gene_total_def trait_total_def sum_values_def)

text \<open>
  Claim C10 says that the totals of every person increase by exactly \<open>p\<close>.  In binary64 a
  slot that holds 1 absorbs \<open>p = 2\<^sup>-\<^sup>5\<^sup>4\<close>: the tables after the update are the tables
  before it.
\<close>

theorem update_total_counterexample:
  "update binary64 [(''Harry'', certain_distribution)] {} {} {} (1 / 2 ^ 54)
     = [(''Harry'', certain_distribution)]"
proof -
  have "binary64 (1 + 1 / 2 ^ 54) = 1"
    by (simp add: binary64_evals round_half_even_def Let_def)
  then show ?thesis
    by (simp add: update_def gene_count_def certain_distribution_def fadd_def fun_eq_iff)
qed

subsection \<open>\<^verbatim>\<open>normalize\<close>\<close>

lemma divide_slots_zero:
  "ks \<noteq> [] \<Longrightarrow> divide_slots fl ks table 0 = Inl ZeroDivisionError"
  by (cases ks) (simp_all add: fdiv_def)

lemma divide_slots_error:
  "divide_slots fl ks table divisor = Inl e \<Longrightarrow> e = ZeroDivisionError"
  by (induction ks arbitrary: table) (auto simp add: fdiv_def split: if_splits sum.splits)

lemma normalize_error:
  "normalize fl probabilities = Inl e \<Longrightarrow> e = ZeroDivisionError"
proof (induction probabilities)
  case Nil
  then show ?case by simp
next
  case (Cons a probabilities)
  obtain person d where a: "a = (person, d)" by (cases a)
  from Cons show ?case
    unfolding a
    by (auto simp del: divide_slots.simps split: sum.splits dest: divide_slots_error)
qed

text \<open>
  Claim C7.  When the total of the gene weights or of the trait weights of some person is
  zero, \<^verbatim>\<open>normalize\<close> fails with \<^verbatim>\<open>ZeroDivisionError\<close>; it returns no table.
\<close>

theorem normalize_zero_total:
  assumes "(person, d) \<in> set probabilities"
      and "gene_total fl d = 0 \<or> trait_total fl d = 0"
  shows "normalize fl probabilities = Inl ZeroDivisionError"
  using assms(1)
proof (induction probabilities)
  case Nil
  then show ?case by simp
next
  case (Cons a probabilities)
  obtain person' d' where a: "a = (person', d')" by (cases a)
  show ?case
  proof (cases "a = (person, d)")
    case True
    then have [simp]: "person' = person" "d' = d" using a by simp_all
    from assms(2) show ?thesis
      unfolding a
      by (auto simp add: divide_slots_zero simp del: divide_slots.simps
          split: sum.splits dest: divide_slots_error)
  next
    case False
    with Cons.prems have "(person, d) \<in> set probabilities" by simp
    then have "normalize fl probabilities = Inl ZeroDivisionError" by (rule Cons.IH)
    then show ?thesis
      unfolding a
      by (auto simp del: divide_slots.simps split: sum.splits dest: divide_slots_error)
  qed
qed

theorem normalize_zero_total_witness:
  "(''Harry'', zero_distribution) \<in> set [(''Harry'', zero_distribution)] \<and>
   (gene_total binary64 zero_distribution = 0 \<or> trait_total binary64 zero_distribution = 0) \<and>
   normalize binary64 [(''Harry'', zero_distribution)] = Inl ZeroDivisionError"
proof -
  have g: "gene_total binary64 zero_distribution = 0"
    by (simp add: gene_total_def sum_values_def fadd_def zero_distribution_def binary64_zero)
  then show ?thesis
    using normalize_zero_total [of "''Harry''" zero_distribution
        "[(''Harry'', zero_distribution)]" binary64]
    by simp
qed

subsection \<open>A single founder\<close>

lemma hypotheses_single_founder:
  "hypotheses (single_founder n) =
     [([], [], []), ([], [n], []), ([n], [], []),
      ([], [], [n]), ([], [n], [n]), ([n], [], [n])]"
  by (simp add: single_founder_def hypotheses_def powerset_def fails_evidence_def
      set_minus_def numeral_2_eq_2 Let_def)

lemma accumulate_single_founder_binary64:
  "accumulate binary64 (single_founder n) = [(n, founder_weights_binary64)]"
proof -
  have "accumulate binary64 (single_founder n) =
     [(n, \<lparr>gene = (\<lambda>_. 0)
        (0 := binary64 (binary64 (binary64 (binary64 (96 / 100) * binary64 (99 / 100)))
               + binary64 (binary64 (96 / 100) * binary64 (1 / 100))),
         2 := binary64 (binary64 (binary64 (binary64 (1 / 100) * binary64 (35 / 100)))
               + binary64 (binary64 (1 / 100) * binary64 (65 / 100))),
         1 := binary64 (binary64 (binary64 (binary64 (3 / 100) * binary64 (44 / 100)))
               + binary64 (binary64 (3 / 100) * binary64 (56 / 100)))),
       traits = (\<lambda>_. 0)
        (False := binary64 (binary64 (binary64 (binary64 (binary64 (96 / 100) * binary64 (99 / 100)))
                    + binary64 (binary64 (1 / 100) * binary64 (35 / 100)))
                    + binary64 (binary64 (3 / 100) * binary64 (44 / 100))),
         True := binary64 (binary64 (binary64 (binary64 (binary64 (96 / 100) * binary64 (1 / 100)))
                    + binary64 (binary64 (1 / 100) * binary64 (65 / 100)))
                    + binary64 (binary64 (3 / 100) * binary64 (56 / 100))))\<rparr>)]"
    unfolding accumulate_def hypotheses_single_founder
    by (simp add: single_founder_def initial_def update_def joint_probability_def
        gene_prob_def trait_prob_def gene_count_def PROBS_gene_def PROBS_trait_def
        fmul_def fadd_def literal_def Let_def binary64_idem binary64_nonneg fun_upd_twist)
  also have "\<dots> = [(n, founder_weights_binary64)]"
    unfolding founder_weights_binary64_def
    by (simp add: binary64_evals round_half_even_def Let_def fun_upd_twist)
  finally show ?thesis .
qed


lemma accumulate_single_founder_exact:
  "accumulate exact (single_founder n) = [(n, founder_weights_exact)]"
  unfolding accumulate_def hypotheses_single_founder founder_weights_exact_def
  by (simp add: single_founder_def initial_def update_def joint_probability_def
      gene_prob_def trait_prob_def gene_count_def PROBS_gene_def PROBS_trait_def
      fmul_def fadd_def literal_def Let_def exact_def fun_upd_twist)

lemma main_single_founder_binary64:
  "main binary64 (single_founder n) = Inr [(n, founder_posterior_binary64)]"
proof -
  have g: "gene_total binary64 founder_weights_binary64 = 1"
    unfolding gene_total_def sum_values_def fadd_def founder_weights_binary64_def
    by (simp add: binary64_evals round_half_even_def Let_def)
  have t: "trait_total binary64 founder_weights_binary64 = 9007199254740991 / 9007199254740992"
    unfolding trait_total_def sum_values_def fadd_def founder_weights_binary64_def
    by (simp add: binary64_evals round_half_even_def Let_def)
  have "main binary64 (single_founder n) =
     Inr [(n, \<lparr>gene = (gene founder_weights_binary64)
                 (2 := binary64 (gene founder_weights_binary64 2),
                  1 := binary64 (gene founder_weights_binary64 1),
                  0 := binary64 (gene founder_weights_binary64 0)),
              traits = (traits founder_weights_binary64)
                 (True := binary64 (traits founder_weights_binary64 True
                                     / (9007199254740991 / 9007199254740992)),
                  False := binary64 (traits founder_weights_binary64 False
                                     / (9007199254740991 / 9007199254740992)))\<rparr>)]"
    unfolding main_def accumulate_single_founder_binary64
    by (simp add: g t fdiv_def)
  also have "\<dots> = Inr [(n, \<lparr>gene = (\<lambda>_. 0)
                 (2 := binary64 (5764607523034235 / 576460752303423488),
                  1 := binary64 (8646911284551353 / 288230376151711744),
                  0 := binary64 (1080863910568919 / 1125899906842624)),
              traits = (\<lambda>_. 0)
                 (True := binary64 (2370694843847829 / 72057594037927936
                                     / (9007199254740991 / 9007199254740992)),
                  False := binary64 (2177715599815003 / 2251799813685248
                                     / (9007199254740991 / 9007199254740992)))\<rparr>)]"
    by (simp add: founder_weights_binary64_def fun_upd_twist)
  also have "\<dots> = Inr [(n, founder_posterior_binary64)]"
    unfolding founder_posterior_binary64_def
    by (simp add: binary64_evals round_half_even_def Let_def)
  finally show ?thesis .
qed

lemma main_single_founder_exact:
  "main exact (single_founder n) =
     Inr [(n, \<lparr>gene = (\<lambda>_. 0)(2 := 1 / 100, 1 := 3 / 100, 0 := 96 / 100),
               traits = (\<lambda>_. 0)(True := 329 / 10000, False := 9671 / 10000)\<rparr>)]"
  unfolding main_def accumulate_single_founder_exact
  by (simp add: founder_weights_exact_def gene_total_def trait_total_def sum_values_def
      fadd_def fdiv_def exact_def fun_upd_twist)

text \<open>
  Claim C6 says that the normalised gene distribution of a single founder with unknown
  trait is the prior table exactly.  The program computes 0.030000000000000002 for one
  copy: the two products \<open>0.03 * 0.44\<close> and \<open>0.03 * 0.56\<close> add up to the number after
  0.03.
\<close>

theorem founder_posterior_counterexample:
  "main binary64 (single_founder ''Harry'') = Inr [(''Harry'', founder_posterior_binary64)] \<and>
   gene founder_posterior_binary64 1 \<noteq> PROBS_gene binary64 1 \<and>
   gene founder_posterior_binary64 1 \<noteq> 3 / 100"
proof -
  have "PROBS_gene binary64 1 = 8646911284551352 / 288230376151711744"
    by (simp add: PROBS_gene_def literal_def binary64_evals round_half_even_def Let_def)
  then show ?thesis
    by (simp add: main_single_founder_binary64 founder_posterior_binary64_def)
qed

text \<open>
  Claim C6, amended.  For a population of a single founder with unknown trait \<^verbatim>\<open>main\<close>
  succeeds; the normalised gene distribution is the prior table when the arithmetic is
  exact, and in binary64 it is the prior table for no copy and for two copies, and the
  prior 0.03 plus one unit in the last place, \<open>2\<^sup>-\<^sup>5\<^sup>8\<close>, for one copy.
\<close>

theorem founder_posterior:
  "(\<exists>d. main exact (single_founder n) = Inr [(n, d)] \<and>
        gene d 0 = 96 / 100 \<and> gene d 1 = 3 / 100 \<and> gene d 2 = 1 / 100) \<and>
   (\<exists>d. main binary64 (single_founder n) = Inr [(n, d)] \<and>
        gene d 0 = PROBS_gene binary64 0 \<and>
        gene d 1 = PROBS_gene binary64 1 + 1 / 2 ^ 58 \<and>
        gene d 2 = PROBS_gene binary64 2)"
proof -
  have "PROBS_gene binary64 0 = 1080863910568919 / 1125899906842624"
    "PROBS_gene binary64 1 = 8646911284551352 / 288230376151711744"
    "PROBS_gene binary64 2 = 5764607523034235 / 576460752303423488"
    by (simp_all add: PROBS_gene_def literal_def binary64_evals round_half_even_def Let_def)
  then show ?thesis
    by (simp add: main_single_founder_binary64 main_single_founder_exact
        founder_posterior_binary64_def)
qed

text \<open>
  Claim C2 says that before \<^verbatim>\<open>normalize\<close> the gene weights and the trait weights of each
  person have the same sum.  For the single founder the gene weights sum to 1.0 and the
  trait weights to 0.9999999999999999, as \<^verbatim>\<open>normalize\<close> adds them; the exact sums of
  the five stored numbers differ as well.
\<close>

theorem evidence_mass_counterexample:
  "accumulate binary64 (single_founder ''Harry'') = [(''Harry'', founder_weights_binary64)] \<and>
   gene founder_weights_binary64 0 + gene founder_weights_binary64 1
     + gene founder_weights_binary64 2
     \<noteq> traits founder_weights_binary64 True + traits founder_weights_binary64 False \<and>
   gene_total binary64 founder_weights_binary64
     \<noteq> trait_total binary64 founder_weights_binary64"
proof -
  have g: "gene_total binary64 founder_weights_binary64 = 1"
    unfolding gene_total_def sum_values_def fadd_def founder_weights_binary64_def
    by (simp add: binary64_evals round_half_even_def Let_def)
  have t: "trait_total binary64 founder_weights_binary64 = 9007199254740991 / 9007199254740992"
    unfolding trait_total_def sum_values_def fadd_def founder_weights_binary64_def
    by (simp add: binary64_evals round_half_even_def Let_def)
  show ?thesis
    unfolding g t by (simp add: accumulate_single_founder_binary64 founder_weights_binary64_def)
qed

subsection \<open>The accumulated weights\<close>

lemma update_keys: "map fst (update fl T one_gene two_genes have_trait p) = map fst T"
  by (induction T) (auto simp add: update_def Let_def)

lemma initial_keys: "map fst (initial people) = map fst people"
  by (induction people) (auto simp add: initial_def)

lemma fold_update_keys:
  "map fst (fold (\<lambda>(one_gene, two_genes, have_trait) T.
                    update fl T (set one_gene) (set two_genes) (set have_trait)
                      (w one_gene two_genes have_trait)) hs T) = map fst T"
  by (induction hs arbitrary: T) (auto simp add: update_keys)

lemma accumulate_keys: "map fst (accumulate fl people) = map fst people"
  unfolding accumulate_def by (simp add: fold_update_keys initial_keys)

lemma update_entry:
  assumes "(person, d') \<in> set (update fl T one_gene two_genes have_trait p)"
  shows "\<exists>d. (person, d) \<in> set T \<and>
           d' = d\<lparr>gene := (gene d)(gene_count one_gene two_genes person :=
                       fadd fl (gene d (gene_count one_gene two_genes person)) p),
                  traits := (traits d)((person \<in> have_trait) :=
                       fadd fl (traits d (person \<in> have_trait)) p)\<rparr>"
  using assms by (auto simp add: update_def Let_def)

lemma update_exact_sums:
  assumes "(person, d') \<in> set (update exact T one_gene two_genes have_trait p)"
  shows "\<exists>d. (person, d) \<in> set T \<and>
           gene d' 0 + gene d' 1 + gene d' 2 = gene d 0 + gene d 1 + gene d 2 + p \<and>
           traits d' True + traits d' False = traits d True + traits d False + p"
proof -
  from update_entry [OF assms] obtain d where d: "(person, d) \<in> set T"
    and d': "d' = d\<lparr>gene := (gene d)(gene_count one_gene two_genes person :=
                       fadd exact (gene d (gene_count one_gene two_genes person)) p),
                  traits := (traits d)((person \<in> have_trait) :=
                       fadd exact (traits d (person \<in> have_trait)) p)\<rparr>"
    by blast
  have "gene d' 0 + gene d' 1 + gene d' 2 = gene d 0 + gene d 1 + gene d 2 + p"
    unfolding d' by (simp add: gene_count_def fadd_def exact_def)
  moreover have "traits d' True + traits d' False = traits d True + traits d False + p"
    unfolding d' by (simp add: fadd_def exact_def)
  ultimately show ?thesis using d by blast
qed

lemma fold_update_exact_sums:
  assumes "\<forall>(person, d)\<in>set T. gene d 0 + gene d 1 + gene d 2 = M \<and>
                                traits d True + traits d False = M"
  shows "\<forall>(person, d)\<in>set (fold (\<lambda>(one_gene, two_genes, have_trait) T.
                    update exact T (set one_gene) (set two_genes) (set have_trait)
                      (w one_gene two_genes have_trait)) hs T).
           gene d 0 + gene d 1 + gene d 2
             = M + sum_list (map (\<lambda>(one_gene, two_genes, have_trait).
                                     w one_gene two_genes have_trait) hs) \<and>
           traits d True + traits d False
             = M + sum_list (map (\<lambda>(one_gene, two_genes, have_trait).
                                     w one_gene two_genes have_trait) hs)"
  using assms
proof (induction hs arbitrary: T M)
  case Nil
  then show ?case by simp
next
  case (Cons h hs)
  obtain one_gene two_genes have_trait where h: "h = (one_gene, two_genes, have_trait)"
    by (cases h)
  let ?p = "w one_gene two_genes have_trait"
  let ?T = "update exact T (set one_gene) (set two_genes) (set have_trait) ?p"
  have "\<forall>(person, d)\<in>set ?T. gene d 0 + gene d 1 + gene d 2 = M + ?p \<and>
                                traits d True + traits d False = M + ?p"
  proof (clarify)
    fix person d' assume "(person, d') \<in> set ?T"
    from update_exact_sums [OF this] obtain d where "(person, d) \<in> set T"
      "gene d' 0 + gene d' 1 + gene d' 2 = gene d 0 + gene d 1 + gene d 2 + ?p"
      "traits d' True + traits d' False = traits d True + traits d False + ?p"
      by blast
    with Cons.prems show "gene d' 0 + gene d' 1 + gene d' 2 = M + ?p \<and>
                                traits d' True + traits d' False = M + ?p"
      by fastforce
  qed
  from Cons.IH [OF this] show ?case
    unfolding h by (simp add: add.assoc)
qed

subsection \<open>The enumeration is not empty\<close>

lemma filter_in_combinations:
  "filter P xs \<in> set (combinations xs (length (filter P xs)))"
proof (induction xs)
  case Nil
  then show ?case by simp
next
  case (Cons x xs)
  show ?case
  proof (cases "P x")
    case True
    with Cons show ?thesis by simp
  next
    case False
    show ?thesis
    proof (cases "length (filter P xs)")
      case 0
      with False show ?thesis by simp
    next
      case (Suc r)
      with False Cons show ?thesis by simp
    qed
  qed
qed

lemma filter_in_powerset: "filter P xs \<in> set (powerset xs)"
proof -
  have "length (filter P xs) \<le> length xs" by (rule length_filter_le)
  then have "length (filter P xs) = length xs \<or> length (filter P xs) < length xs"
    by (rule le_imp_less_or_eq [THEN disj_commute [THEN iffD1]])
  then have "length (filter P xs) \<in> set [0 ..< length xs + 1]"
    by (simp del: length_filter_le)
  then show ?thesis
    unfolding powerset_def using filter_in_combinations [of P xs] by auto
qed

lemma powerset_nonempty: "powerset xs \<noteq> []"
  using filter_in_powerset [of "\<lambda>_. True" xs] by auto

lemma hypotheses_pass_evidence:
  "(one_gene, two_genes, have_trait) \<in> set (hypotheses people)
     \<Longrightarrow> \<not> fails_evidence people have_trait"
  by (auto simp add: hypotheses_def Let_def split: if_splits)

lemma consistent_trait_set:
  assumes "distinct (map fst people)"
  shows "\<not> fails_evidence people
            (filter (\<lambda>n. \<exists>p. (n, p) \<in> set people \<and> trait p = Some True) (map fst people))"
proof -
  have "trait p = None \<or> trait p = Some (\<exists>p'. (n, p') \<in> set people \<and> trait p' = Some True)"
    if "(n, p) \<in> set people" for n p
  proof (cases "trait p")
    case None
    then show ?thesis by simp
  next
    case (Some v)
    show ?thesis
    proof (cases v)
      case True
      with Some that show ?thesis by auto
    next
      case False
      have "p' = p" if "(n, p') \<in> set people" for p'
        using assms that \<open>(n, p) \<in> set people\<close> by (meson eq_key_imp_eq_value)
      with Some False show ?thesis by auto
    qed
  qed
  then show ?thesis
    unfolding fails_evidence_def list_ex_iff
    by (force simp add: image_iff)
qed

lemma hypotheses_nonempty:
  assumes "distinct (map fst people)"
  shows "hypotheses people \<noteq> []"
proof -
  let ?names = "map fst people"
  let ?ht = "filter (\<lambda>n. \<exists>p. (n, p) \<in> set people \<and> trait p = Some True) ?names"
  have ht: "?ht \<in> set (powerset ?names)" by (rule filter_in_powerset)
  have ok: "\<not> fails_evidence people ?ht" using assms by (rule consistent_trait_set)
  obtain one_gene where o: "one_gene \<in> set (powerset ?names)"
    using powerset_nonempty [of ?names] by (cases "powerset ?names") auto
  obtain two_genes where t: "two_genes \<in> set (powerset (set_minus ?names one_gene))"
    using powerset_nonempty [of "set_minus ?names one_gene"]
    by (cases "powerset (set_minus ?names one_gene)") auto
  have "(one_gene, two_genes, ?ht) \<in> set (hypotheses people)"
    unfolding hypotheses_def Let_def using ht ok o t by (auto simp del: set_filter)
  then show ?thesis by auto
qed

subsection \<open>What \<^verbatim>\<open>update\<close> preserves\<close>

lemma initial_weights_ok: "weights_ok (initial people)"
  by (auto simp add: weights_ok_def initial_def binary64_zero)

lemma initial_heeds_evidence: "heeds_evidence people (initial people)"
  by (auto simp add: heeds_evidence_def initial_def)

lemma fadd_binary64_ok:
  assumes "0 \<le> a" and "0 < p"
  shows "0 < fadd binary64 a p" and "binary64 (fadd binary64 a p) = fadd binary64 a p"
proof -
  have "0 < a + p" using assms by simp
  then show "0 < fadd binary64 a p" unfolding fadd_def by (rule binary64_pos)
  have "0 \<le> a + p" using assms by simp
  then show "binary64 (fadd binary64 a p) = fadd binary64 a p"
    unfolding fadd_def by (rule binary64_idem)
qed

lemma update_weights_ok:
  assumes "weights_ok T" and "0 < p"
  shows "weights_ok (update binary64 T one_gene two_genes have_trait p)"
  unfolding weights_ok_def
proof (clarify)
  fix person d'
  assume "(person, d') \<in> set (update binary64 T one_gene two_genes have_trait p)"
  from update_entry [OF this] obtain d where d: "(person, d) \<in> set T"
    and d': "d' = d\<lparr>gene := (gene d)(gene_count one_gene two_genes person :=
                       fadd binary64 (gene d (gene_count one_gene two_genes person)) p),
                  traits := (traits d)((person \<in> have_trait) :=
                       fadd binary64 (traits d (person \<in> have_trait)) p)\<rparr>"
    by blast
  have g: "0 \<le> gene d k" "binary64 (gene d k) = gene d k" for k
    using assms(1) d unfolding weights_ok_def by auto
  have t: "0 \<le> traits d b" "binary64 (traits d b) = traits d b" for b
    using assms(1) d unfolding weights_ok_def by auto
  have "0 \<le> gene d' k \<and> binary64 (gene d' k) = gene d' k" for k
    unfolding d' using g fadd_binary64_ok [OF g(1) assms(2)]
    by (simp add: less_imp_le)
  moreover have "0 \<le> traits d' b \<and> binary64 (traits d' b) = traits d' b" for b
    unfolding d' using t fadd_binary64_ok [OF t(1) assms(2)]
    by (simp add: less_imp_le)
  ultimately show "(\<forall>k. 0 \<le> gene d' k \<and> binary64 (gene d' k) = gene d' k) \<and>
        (\<forall>t. 0 \<le> traits d' t \<and> binary64 (traits d' t) = traits d' t)"
    by blast
qed

lemma update_weights_pos:
  assumes "weights_ok T" and "0 < p"
  shows "weights_pos (update binary64 T one_gene two_genes have_trait p)"
  unfolding weights_pos_def
proof (clarify)
  fix person d'
  assume "(person, d') \<in> set (update binary64 T one_gene two_genes have_trait p)"
  from update_entry [OF this] obtain d where d: "(person, d) \<in> set T"
    and d': "d' = d\<lparr>gene := (gene d)(gene_count one_gene two_genes person :=
                       fadd binary64 (gene d (gene_count one_gene two_genes person)) p),
                  traits := (traits d)((person \<in> have_trait) :=
                       fadd binary64 (traits d (person \<in> have_trait)) p)\<rparr>"
    by blast
  have g: "0 \<le> gene d k" for k
    using assms(1) d unfolding weights_ok_def by auto
  have t: "0 \<le> traits d b" for b
    using assms(1) d unfolding weights_ok_def by auto
  have "0 < gene d' (gene_count one_gene two_genes person)"
    unfolding d' using fadd_binary64_ok(1) [OF g assms(2)] by simp
  then have "0 < gene d' 0 \<or> 0 < gene d' 1 \<or> 0 < gene d' 2"
    by (auto simp add: gene_count_def split: if_splits)
  moreover have "0 < traits d' (person \<in> have_trait)"
    unfolding d' using fadd_binary64_ok(1) [OF t assms(2)] by simp
  then have "0 < traits d' True \<or> 0 < traits d' False"
    by (cases "person \<in> have_trait") auto
  ultimately show "(0 < gene d' 0 \<or> 0 < gene d' 1 \<or> 0 < gene d' 2) \<and>
        (0 < traits d' True \<or> 0 < traits d' False)"
    by blast
qed

lemma update_heeds_evidence:
  assumes "heeds_evidence people T" and "\<not> fails_evidence people have_trait"
  shows "heeds_evidence people (update fl T one_gene two_genes (set have_trait) p)"
  unfolding heeds_evidence_def
proof (clarify)
  fix person d' q v
  assume "(person, d') \<in> set (update fl T one_gene two_genes (set have_trait) p)"
    and q: "(person, q) \<in> set people" "trait q = Some v"
  from update_entry [OF this(1)] obtain d where d: "(person, d) \<in> set T"
    and d': "d' = d\<lparr>gene := (gene d)(gene_count one_gene two_genes person :=
                       fadd fl (gene d (gene_count one_gene two_genes person)) p),
                  traits := (traits d)((person \<in> set have_trait) :=
                       fadd fl (traits d (person \<in> set have_trait)) p)\<rparr>"
    by blast
  have "trait q = None \<or> trait q = Some (person \<in> set have_trait)"
    using assms(2) q(1) unfolding fails_evidence_def list_ex_iff by auto
  with q(2) have v: "v = (person \<in> set have_trait)" by simp
  have "traits d (\<not> v) = 0"
    using assms(1) d q unfolding heeds_evidence_def by blast
  then show "traits d' (\<not> v) = 0"
    unfolding d' v by simp
qed

subsection \<open>An observed trait is certain\<close>

lemma fold_update_invariants:
  assumes "weights_ok T" and "heeds_evidence people T"
      and "\<forall>(one_gene, two_genes, have_trait)\<in>set hs. \<not> fails_evidence people have_trait"
  shows "weights_ok (fold (\<lambda>(one_gene, two_genes, have_trait) T.
             update binary64 T (set one_gene) (set two_genes) (set have_trait)
               (joint_probability binary64 people (set one_gene) (set two_genes)
                  (set have_trait))) hs T) \<and>
         heeds_evidence people (fold (\<lambda>(one_gene, two_genes, have_trait) T.
             update binary64 T (set one_gene) (set two_genes) (set have_trait)
               (joint_probability binary64 people (set one_gene) (set two_genes)
                  (set have_trait))) hs T)"
  using assms
proof (induction hs arbitrary: T)
  case Nil
  then show ?case by simp
next
  case (Cons h hs)
  obtain one_gene two_genes have_trait where h: "h = (one_gene, two_genes, have_trait)"
    by (cases h)
  let ?p = "joint_probability binary64 people (set one_gene) (set two_genes) (set have_trait)"
  let ?T = "update binary64 T (set one_gene) (set two_genes) (set have_trait) ?p"
  have p: "0 < ?p" by (rule joint_probability_pos)
  have ev: "\<not> fails_evidence people have_trait" using Cons.prems(3) h by simp
  have 1: "weights_ok ?T" using Cons.prems(1) p by (rule update_weights_ok)
  have 2: "heeds_evidence people ?T" using Cons.prems(2) ev by (rule update_heeds_evidence)
  have 3: "\<forall>(one_gene, two_genes, have_trait)\<in>set hs. \<not> fails_evidence people have_trait"
    using Cons.prems(3) by simp
  from Cons.IH [OF 1 2 3] show ?case unfolding h by simp
qed

lemma accumulate_invariants:
  assumes "distinct (map fst people)"
  shows "weights_ok (accumulate binary64 people)"
    and "heeds_evidence people (accumulate binary64 people)"
    and "weights_pos (accumulate binary64 people)"
proof -
  let ?step = "\<lambda>(one_gene, two_genes, have_trait) T.
             update binary64 T (set one_gene) (set two_genes) (set have_trait)
               (joint_probability binary64 people (set one_gene) (set two_genes)
                  (set have_trait))"
  have ev: "\<forall>(one_gene, two_genes, have_trait)\<in>set (hypotheses people).
              \<not> fails_evidence people have_trait"
    using hypotheses_pass_evidence by blast
  from fold_update_invariants [OF initial_weights_ok initial_heeds_evidence ev]
  show "weights_ok (accumulate binary64 people)"
    and "heeds_evidence people (accumulate binary64 people)"
    unfolding accumulate_def by simp_all
  from hypotheses_nonempty [OF assms] obtain hs h where hs: "hypotheses people = hs @ [h]"
    by (meson rev_exhaust)
  obtain one_gene two_genes have_trait where h: "h = (one_gene, two_genes, have_trait)"
    by (cases h)
  have ev': "\<forall>(one_gene, two_genes, have_trait)\<in>set hs.
              \<not> fails_evidence people have_trait"
    using ev unfolding hs by simp
  from fold_update_invariants [OF initial_weights_ok initial_heeds_evidence ev']
  have ok: "weights_ok (fold ?step hs (initial people))" by simp
  have "accumulate binary64 people =
       update binary64 (fold ?step hs (initial people)) (set one_gene) (set two_genes)
         (set have_trait)
         (joint_probability binary64 people (set one_gene) (set two_genes) (set have_trait))"
    unfolding accumulate_def hs h by simp
  then show "weights_pos (accumulate binary64 people)"
    using update_weights_pos [OF ok joint_probability_pos] by simp
qed

lemma normalize_success:
  assumes "\<forall>(person, d)\<in>set T. gene_total fl d \<noteq> 0 \<and> trait_total fl d \<noteq> 0"
  shows "normalize fl T = Inr (map (\<lambda>(person, d). (person, normalized fl d)) T)"
  using assms
proof (induction T)
  case Nil
  then show ?case by simp
next
  case (Cons a T)
  obtain person d where a: "a = (person, d)" by (cases a)
  have g: "gene_total fl d \<noteq> 0" and t: "trait_total fl d \<noteq> 0"
    using Cons.prems a by simp_all
  have rest: "normalize fl T = Inr (map (\<lambda>(person, d). (person, normalized fl d)) T)"
    using Cons by simp
  have dg: "divide_slots fl [2, 1, 0] (gene d) (gene_total fl d) = Inr (gene (normalized fl d))"
    using g by (simp add: fdiv_def normalized_def)
  have dt: "divide_slots fl [True, False] (traits d) (trait_total fl d)
              = Inr (traits (normalized fl d))"
    using t by (simp add: fdiv_def normalized_def)
  have "normalize fl ((person, d) # T) =
          Inr ((person, \<lparr>gene = gene (normalized fl d), traits = traits (normalized fl d)\<rparr>)
                 # map (\<lambda>(person, d). (person, normalized fl d)) T)"
    by (simp only: normalize.simps dg dt rest sum.case)
  then show ?case
    unfolding a by simp
qed

lemma fadd_binary64_nonneg: "0 \<le> a \<Longrightarrow> 0 \<le> b \<Longrightarrow> 0 \<le> fadd binary64 a b"
  by (simp add: fadd_def binary64_nonneg)

lemma fadd_binary64_pos_left: "0 < a \<Longrightarrow> 0 \<le> b \<Longrightarrow> 0 < fadd binary64 a b"
  by (simp add: fadd_def binary64_pos)

lemma totals_pos:
  assumes "weights_ok T" and "weights_pos T" and "(person, d) \<in> set T"
  shows "0 < gene_total binary64 d" and "0 < trait_total binary64 d"
proof -
  have g: "0 \<le> gene d k" for k
    using assms(1,3) unfolding weights_ok_def by auto
  have t: "0 \<le> traits d b" for b
    using assms(1,3) unfolding weights_ok_def by auto
  have gp: "0 < gene d 0 \<or> 0 < gene d 1 \<or> 0 < gene d 2"
    and tp: "0 < traits d True \<or> 0 < traits d False"
    using assms(2,3) unfolding weights_pos_def by auto
  have z: "(0::real) \<le> 0" by simp
  let ?a = "fadd binary64 0 (gene d 2)"
  let ?b = "fadd binary64 ?a (gene d 1)"
  have a0: "0 \<le> ?a" using z g by (rule fadd_binary64_nonneg)
  have b0: "0 \<le> ?b" using a0 g by (rule fadd_binary64_nonneg)
  have "0 < fadd binary64 ?b (gene d 0)"
  proof -
    consider "0 < gene d 0" | "0 < gene d 1" | "0 < gene d 2" using gp by blast
    then show ?thesis
    proof cases
      case 1
      with b0 show ?thesis by (rule fadd_binary64_ok(1))
    next
      case 2
      with a0 have "0 < ?b" by (rule fadd_binary64_ok(1))
      then show ?thesis using g by (rule fadd_binary64_pos_left)
    next
      case 3
      with z have "0 < ?a" by (rule fadd_binary64_ok(1))
      then have "0 < ?b" using g by (rule fadd_binary64_pos_left)
      then show ?thesis using g by (rule fadd_binary64_pos_left)
    qed
  qed
  then show "0 < gene_total binary64 d"
    by (simp add: gene_total_def sum_values_def)
  let ?c = "fadd binary64 0 (traits d True)"
  have c0: "0 \<le> ?c" using z t by (rule fadd_binary64_nonneg)
  have "0 < fadd binary64 ?c (traits d False)"
  proof -
    consider "0 < traits d True" | "0 < traits d False" using tp by blast
    then show ?thesis
    proof cases
      case 1
      with z have "0 < ?c" by (rule fadd_binary64_ok(1))
      then show ?thesis using t by (rule fadd_binary64_pos_left)
    next
      case 2
      with c0 show ?thesis by (rule fadd_binary64_ok(1))
    qed
  qed
  then show "0 < trait_total binary64 d"
    by (simp add: trait_total_def sum_values_def)
qed

lemma observed_trait_total:
  assumes "binary64 x = x" and "traits d v = x" and "traits d (\<not> v) = 0"
  shows "trait_total binary64 d = x"
proof (cases v)
  case True
  with assms show ?thesis
    by (simp add: trait_total_def sum_values_def fadd_def)
next
  case False
  with assms show ?thesis
    by (simp add: trait_total_def sum_values_def fadd_def binary64_zero)
qed

text \<open>
  Claim C3.  For every population and every person in it whose trait is observed, \<^verbatim>\<open>main\<close>
  succeeds, its table has an entry for every person, and the normalised trait
  distribution of that person is exactly 1 at the observed value and exactly 0 at the
  other value.
\<close>

theorem observed_trait_certain:
  assumes "distinct (map fst people)"
      and "(person, p) \<in> set people" and "trait p = Some v"
  shows "\<exists>result. main binary64 people = Inr result \<and>
           map fst result = map fst people \<and>
           (\<forall>d. (person, d) \<in> set result \<longrightarrow> traits d v = 1 \<and> traits d (\<not> v) = 0)"
proof -
  let ?A = "accumulate binary64 people"
  let ?R = "map (\<lambda>(person, d). (person, normalized binary64 d)) ?A"
  note inv = accumulate_invariants [OF assms(1)]
  have "\<forall>(person, d)\<in>set ?A. gene_total binary64 d \<noteq> 0 \<and> trait_total binary64 d \<noteq> 0"
    using totals_pos [OF inv(1) inv(3)] by fastforce
  then have m: "main binary64 people = Inr ?R"
    unfolding main_def by (rule normalize_success)
  have k: "map fst ?R = map fst people"
    using accumulate_keys [of binary64 people] by (simp add: case_prod_unfold comp_def)
  have "traits d' v = 1 \<and> traits d' (\<not> v) = 0" if "(person, d') \<in> set ?R" for d'
  proof -
    from that obtain d where d: "(person, d) \<in> set ?A" and d': "d' = normalized binary64 d"
      by auto
    have z: "traits d (\<not> v) = 0"
      using inv(2) d assms(2,3) unfolding heeds_evidence_def by blast
    have r: "binary64 (traits d v) = traits d v"
      using inv(1) d unfolding weights_ok_def by auto
    have tt: "trait_total binary64 d = traits d v"
      using r _ z by (rule observed_trait_total) simp
    have "0 < trait_total binary64 d" using inv(1) inv(3) d by (rule totals_pos(2))
    then have x: "traits d v \<noteq> 0" unfolding tt by simp
    show ?thesis
      unfolding d' normalized_def tt using x z
      by (cases v) (simp_all add: binary64_one binary64_zero)
  qed
  with m k show ?thesis by blast
qed

theorem observed_trait_certain_witness:
  "distinct (map fst [(''Harry'', harry_observed)]) \<and>
   (''Harry'', harry_observed) \<in> set [(''Harry'', harry_observed)] \<and>
   trait harry_observed = Some True \<and>
   (\<exists>result. main binary64 [(''Harry'', harry_observed)] = Inr result \<and>
           map fst result = [''Harry''] \<and>
           (\<forall>d. (''Harry'', d) \<in> set result \<longrightarrow> traits d True = 1 \<and> traits d False = 0))"
  using observed_trait_certain [of "[(''Harry'', harry_observed)]" "''Harry''" harry_observed True]
  by (simp add: harry_observed_def)

subsection \<open>The error of one rounding\<close>

lemma round_half_even_error: "\<bar>of_int (round_half_even y) - y\<bar> \<le> 1 / 2"
proof -
  have "of_int \<lfloor>y\<rfloor> \<le> y" "y < of_int \<lfloor>y\<rfloor> + 1" by linarith+
  then show ?thesis
    unfolding round_half_even_def Let_def by (auto simp add: abs_le_iff)
qed

lemma binary64_error:
  assumes "0 \<le> x"
  shows "(1 - 1 / 2 ^ 53) * x \<le> binary64 x" and "binary64 x \<le> (1 + 1 / 2 ^ 53) * x"
proof -
  have "\<bar>binary64 x - x\<bar> \<le> x / 2 ^ 53"
  proof (cases "x = 0")
    case True
    then show ?thesis by (simp add: binary64_zero)
  next
    case False
    with assms have xpos: "0 < x" by simp
    let ?e = "of_int \<lfloor>log 2 x\<rfloor> :: real"
    let ?s = "2 powr (?e - 52)"
    let ?y = "x * 2 powr (52 - ?e)"
    let ?m = "of_int (round_half_even ?y) :: real"
    have b: "binary64 x = ?m * ?s" using xpos by (simp add: binary64_def)
    have spos: "0 < ?s" by simp
    have ys: "?y * ?s = x" by (simp add: powr_add [symmetric])
    have "\<bar>?m * ?s - ?y * ?s\<bar> = \<bar>?m - ?y\<bar> * ?s"
      using spos by (simp add: left_diff_distrib [symmetric] abs_mult)
    also have "\<dots> \<le> 1 / 2 * ?s"
      using round_half_even_error [of ?y] spos by (simp only: mult_le_cancel_right_pos)
    finally have 1: "\<bar>binary64 x - x\<bar> \<le> 1 / 2 * ?s" unfolding b ys .
    have p53: "(2::real) powr 53 = 2 ^ 53" using powr_realpow [of 2 53] by simp
    have "1 / 2 * ?s = 2 powr (?e - 53)"
    proof -
      have "2 powr (?e - 52) = 2 powr ((?e - 53) + 1)" by simp
      also have "\<dots> = 2 powr (?e - 53) * 2 powr 1" by (rule powr_add)
      finally show ?thesis by simp
    qed
    also have "\<dots> = 2 powr ?e / 2 powr 53" by (simp add: powr_diff)
    also have "\<dots> \<le> x / 2 powr 53"
      using floor_log2_bounds(1) [OF xpos] by (simp add: divide_right_mono)
    finally have "1 / 2 * ?s \<le> x / 2 ^ 53" unfolding p53 .
    with 1 show ?thesis by linarith
  qed
  then have "x - x / 2 ^ 53 \<le> binary64 x" and "binary64 x \<le> x + x / 2 ^ 53"
    by (simp_all only: abs_le_iff) linarith+
  moreover have "(1 - 1 / 2 ^ 53) * x = x - x / 2 ^ 53"
    by (simp only: left_diff_distrib mult_1 times_divide_eq_left)
  moreover have "(1 + 1 / 2 ^ 53) * x = x + x / 2 ^ 53"
    by (simp only: distrib_right mult_1 times_divide_eq_left)
  ultimately show "(1 - 1 / 2 ^ 53) * x \<le> binary64 x"
    and "binary64 x \<le> (1 + 1 / 2 ^ 53) * x"
    by (simp_all only:)
qed

lemma unit_roundoff_bounds: "0 \<le> unit_roundoff" "unit_roundoff \<le> 1"
  by (simp_all add: unit_roundoff_def)

lemma binary64_relative_error:
  assumes "0 \<le> x"
  shows "(1 - unit_roundoff) * x \<le> binary64 x" and "binary64 x \<le> (1 + unit_roundoff) * x"
  unfolding unit_roundoff_def using binary64_error [OF assms] by blast+

lemma lower_with_rest:
  fixes u a b r :: real
  assumes "0 \<le> u" and "0 \<le> r" and "(1 - u) * a \<le> b"
  shows "(1 - u) * (a + r) \<le> b + r"
proof -
  have "0 \<le> u * r" using assms(1,2) by simp
  then have "(1 - u) * r \<le> r" by (simp add: algebra_simps)
  moreover have "(1 - u) * (a + r) = (1 - u) * a + (1 - u) * r" by (simp add: algebra_simps)
  ultimately show ?thesis using assms(3) by linarith
qed

lemma upper_with_rest:
  fixes u a b r :: real
  assumes "0 \<le> u" and "0 \<le> r" and "b \<le> (1 + u) * a"
  shows "b + r \<le> (1 + u) * (a + r)"
proof -
  have "0 \<le> u * r" using assms(1,2) by simp
  then have "r \<le> (1 + u) * r" by (simp add: algebra_simps)
  moreover have "(1 + u) * (a + r) = (1 + u) * a + (1 + u) * r" by (simp add: algebra_simps)
  ultimately show ?thesis using assms(3) by linarith
qed

lemma slot_sum_bounds:
  fixes s p r :: real
  assumes "0 \<le> s" and "0 \<le> p" and "0 \<le> r"
  shows "(1 - unit_roundoff) * (s + r + p) \<le> fadd binary64 s p + r"
    and "fadd binary64 s p + r \<le> (1 + unit_roundoff) * (s + r + p)"
proof -
  have sp: "0 \<le> s + p" using assms by simp
  have e: "s + r + p = (s + p) + r" by simp
  show "(1 - unit_roundoff) * (s + r + p) \<le> fadd binary64 s p + r"
    unfolding e fadd_def
    using unit_roundoff_bounds(1) assms(3) binary64_relative_error(1) [OF sp]
    by (rule lower_with_rest)
  show "fadd binary64 s p + r \<le> (1 + unit_roundoff) * (s + r + p)"
    unfolding e fadd_def
    using unit_roundoff_bounds(1) assms(3) binary64_relative_error(2) [OF sp]
    by (rule upper_with_rest)
qed

lemma update_binary64_sums:
  assumes "weights_ok T" and "0 \<le> p"
      and "(person, d') \<in> set (update binary64 T one_gene two_genes have_trait p)"
  shows "\<exists>d. (person, d) \<in> set T \<and>
           (1 - unit_roundoff) * (gene d 0 + gene d 1 + gene d 2 + p)
              \<le> gene d' 0 + gene d' 1 + gene d' 2 \<and>
           gene d' 0 + gene d' 1 + gene d' 2
              \<le> (1 + unit_roundoff) * (gene d 0 + gene d 1 + gene d 2 + p) \<and>
           (1 - unit_roundoff) * (traits d True + traits d False + p)
              \<le> traits d' True + traits d' False \<and>
           traits d' True + traits d' False
              \<le> (1 + unit_roundoff) * (traits d True + traits d False + p)"
proof -
  from update_entry [OF assms(3)] obtain d where d: "(person, d) \<in> set T"
    and d': "d' = d\<lparr>gene := (gene d)(gene_count one_gene two_genes person :=
                       fadd binary64 (gene d (gene_count one_gene two_genes person)) p),
                  traits := (traits d)((person \<in> have_trait) :=
                       fadd binary64 (traits d (person \<in> have_trait)) p)\<rparr>"
    by blast
  have g: "0 \<le> gene d k" for k
    using assms(1) d unfolding weights_ok_def by auto
  have t: "0 \<le> traits d b" for b
    using assms(1) d unfolding weights_ok_def by auto
  have r: "0 \<le> gene d j + gene d k" for j k using g [of j] g [of k] by simp
  have G: "(1 - unit_roundoff) * (gene d 0 + gene d 1 + gene d 2 + p)
              \<le> gene d' 0 + gene d' 1 + gene d' 2 \<and>
           gene d' 0 + gene d' 1 + gene d' 2
              \<le> (1 + unit_roundoff) * (gene d 0 + gene d 1 + gene d 2 + p)"
  proof -
    consider "gene_count one_gene two_genes person = 0"
      | "gene_count one_gene two_genes person = 1"
      | "gene_count one_gene two_genes person = 2"
      by (cases "person \<in> two_genes"; cases "person \<in> one_gene")
         (simp_all add: gene_count_def)
    then show ?thesis
    proof cases
      case 1
      have e1: "gene d' 0 + gene d' 1 + gene d' 2
                  = fadd binary64 (gene d 0) p + (gene d 1 + gene d 2)"
        unfolding d' 1 by simp
      have e2: "gene d 0 + gene d 1 + gene d 2 + p = gene d 0 + (gene d 1 + gene d 2) + p"
        by simp
      show ?thesis
        unfolding e1 e2 using slot_sum_bounds [OF g [of 0] assms(2) r [of 1 2]] by blast
    next
      case 2
      have e1: "gene d' 0 + gene d' 1 + gene d' 2
                  = fadd binary64 (gene d 1) p + (gene d 0 + gene d 2)"
        unfolding d' 2 by simp
      have e2: "gene d 0 + gene d 1 + gene d 2 + p = gene d 1 + (gene d 0 + gene d 2) + p"
        by simp
      show ?thesis
        unfolding e1 e2 using slot_sum_bounds [OF g [of 1] assms(2) r [of 0 2]] by blast
    next
      case 3
      have e1: "gene d' 0 + gene d' 1 + gene d' 2
                  = fadd binary64 (gene d 2) p + (gene d 0 + gene d 1)"
        unfolding d' 3 by simp
      have e2: "gene d 0 + gene d 1 + gene d 2 + p = gene d 2 + (gene d 0 + gene d 1) + p"
        by simp
      show ?thesis
        unfolding e1 e2 using slot_sum_bounds [OF g [of 2] assms(2) r [of 0 1]] by blast
    qed
  qed
  have Tr: "(1 - unit_roundoff) * (traits d True + traits d False + p)
              \<le> traits d' True + traits d' False \<and>
           traits d' True + traits d' False
              \<le> (1 + unit_roundoff) * (traits d True + traits d False + p)"
  proof (cases "person \<in> have_trait")
    case True
    have e1: "traits d' True + traits d' False
                = fadd binary64 (traits d True) p + traits d False"
      unfolding d' using True by simp
    show ?thesis
      unfolding e1 using slot_sum_bounds [OF t [of True] assms(2) t [of False]] by blast
  next
    case False
    have e1: "traits d' True + traits d' False
                = fadd binary64 (traits d False) p + traits d True"
      unfolding d' using False by simp
    have e2: "traits d True + traits d False + p = traits d False + traits d True + p"
      by simp
    show ?thesis
      unfolding e1 e2 using slot_sum_bounds [OF t [of False] assms(2) t [of True]] by blast
  qed
  from d G Tr show ?thesis by blast
qed

subsection \<open>The error of the accumulated sums\<close>

lemma lower_step:
  fixes u L p S :: real and k :: nat
  assumes "0 \<le> u" and "u \<le> 1" and "0 \<le> S"
  shows "(1 - u) ^ Suc k * (L + (p + S)) \<le> (1 - u) ^ k * ((1 - u) * (L + p) + S)"
proof -
  have "0 \<le> u * S" using assms(1,3) by simp
  then have "(1 - u) * (L + (p + S)) \<le> (1 - u) * (L + p) + S"
    by (simp add: algebra_simps)
  moreover have "0 \<le> (1 - u) ^ k" using assms(2) by simp
  ultimately have "(1 - u) ^ k * ((1 - u) * (L + (p + S))) \<le> (1 - u) ^ k * ((1 - u) * (L + p) + S)"
    by (rule mult_left_mono)
  then show ?thesis by (simp add: mult.assoc mult.left_commute)
qed

lemma upper_step:
  fixes u U p S :: real and k :: nat
  assumes "0 \<le> u" and "0 \<le> S"
  shows "(1 + u) ^ k * ((1 + u) * (U + p) + S) \<le> (1 + u) ^ Suc k * (U + (p + S))"
proof -
  have "0 \<le> u * S" using assms by simp
  then have "(1 + u) * (U + p) + S \<le> (1 + u) * (U + (p + S))"
    by (simp add: algebra_simps)
  moreover have "0 \<le> (1 + u) ^ k" using assms(1) by simp
  ultimately have "(1 + u) ^ k * ((1 + u) * (U + p) + S) \<le> (1 + u) ^ k * ((1 + u) * (U + (p + S)))"
    by (rule mult_left_mono)
  then show ?thesis by (simp add: mult.assoc mult.left_commute)
qed

lemma fold_update_binary64_sums:
  assumes "weights_ok T"
      and "\<forall>(person, d)\<in>set T.
             L \<le> gene d 0 + gene d 1 + gene d 2 \<and> gene d 0 + gene d 1 + gene d 2 \<le> U \<and>
             L \<le> traits d True + traits d False \<and> traits d True + traits d False \<le> U"
      and "0 \<le> L"
      and "\<forall>(one_gene, two_genes, have_trait)\<in>set hs. 0 < w one_gene two_genes have_trait"
  shows "\<forall>(person, d)\<in>set (fold (\<lambda>(one_gene, two_genes, have_trait) T.
                    update binary64 T (set one_gene) (set two_genes) (set have_trait)
                      (w one_gene two_genes have_trait)) hs T).
           (1 - unit_roundoff) ^ length hs
              * (L + sum_list (map (\<lambda>(one_gene, two_genes, have_trait).
                                      w one_gene two_genes have_trait) hs))
             \<le> gene d 0 + gene d 1 + gene d 2 \<and>
           gene d 0 + gene d 1 + gene d 2
             \<le> (1 + unit_roundoff) ^ length hs
              * (U + sum_list (map (\<lambda>(one_gene, two_genes, have_trait).
                                      w one_gene two_genes have_trait) hs)) \<and>
           (1 - unit_roundoff) ^ length hs
              * (L + sum_list (map (\<lambda>(one_gene, two_genes, have_trait).
                                      w one_gene two_genes have_trait) hs))
             \<le> traits d True + traits d False \<and>
           traits d True + traits d False
             \<le> (1 + unit_roundoff) ^ length hs
              * (U + sum_list (map (\<lambda>(one_gene, two_genes, have_trait).
                                      w one_gene two_genes have_trait) hs))"
  using assms
proof (induction hs arbitrary: T L U)
  case Nil
  then show ?case by simp
next
  case (Cons h hs)
  obtain one_gene two_genes have_trait where h: "h = (one_gene, two_genes, have_trait)"
    by (cases h)
  let ?u = unit_roundoff
  let ?p = "w one_gene two_genes have_trait"
  let ?T = "update binary64 T (set one_gene) (set two_genes) (set have_trait) ?p"
  let ?S = "sum_list (map (\<lambda>(one_gene, two_genes, have_trait).
                              w one_gene two_genes have_trait) hs)"
  have p: "0 < ?p" using Cons.prems(4) h by simp
  have rest: "\<forall>(one_gene, two_genes, have_trait)\<in>set hs. 0 < w one_gene two_genes have_trait"
    using Cons.prems(4) by simp
  have S: "0 \<le> ?S"
    using rest by (intro sum_list_nonneg) (auto simp add: less_imp_le)
  have u0: "0 \<le> 1 - ?u" "0 \<le> 1 + ?u" using unit_roundoff_bounds by simp_all
  have ok: "weights_ok ?T" using Cons.prems(1) p by (rule update_weights_ok)
  have L': "0 \<le> (1 - ?u) * (L + ?p)" using u0(1) Cons.prems(3) p by simp
  have b: "\<forall>(person, d)\<in>set ?T.
             (1 - ?u) * (L + ?p) \<le> gene d 0 + gene d 1 + gene d 2 \<and>
             gene d 0 + gene d 1 + gene d 2 \<le> (1 + ?u) * (U + ?p) \<and>
             (1 - ?u) * (L + ?p) \<le> traits d True + traits d False \<and>
             traits d True + traits d False \<le> (1 + ?u) * (U + ?p)"
  proof (clarify)
    fix person d' assume "(person, d') \<in> set ?T"
    from update_binary64_sums [OF Cons.prems(1) less_imp_le [OF p] this]
    obtain d where d: "(person, d) \<in> set T"
      and 1: "(1 - ?u) * (gene d 0 + gene d 1 + gene d 2 + ?p) \<le> gene d' 0 + gene d' 1 + gene d' 2"
      and 2: "gene d' 0 + gene d' 1 + gene d' 2 \<le> (1 + ?u) * (gene d 0 + gene d 1 + gene d 2 + ?p)"
      and 3: "(1 - ?u) * (traits d True + traits d False + ?p) \<le> traits d' True + traits d' False"
      and 4: "traits d' True + traits d' False \<le> (1 + ?u) * (traits d True + traits d False + ?p)"
      by blast
    from Cons.prems(2) d have
      g: "L \<le> gene d 0 + gene d 1 + gene d 2" "gene d 0 + gene d 1 + gene d 2 \<le> U"
      and t: "L \<le> traits d True + traits d False" "traits d True + traits d False \<le> U"
      by auto
    have "(1 - ?u) * (L + ?p) \<le> (1 - ?u) * (gene d 0 + gene d 1 + gene d 2 + ?p)"
      using u0(1) g(1) by (intro mult_left_mono) simp_all
    moreover have "(1 + ?u) * (gene d 0 + gene d 1 + gene d 2 + ?p) \<le> (1 + ?u) * (U + ?p)"
      using u0(2) g(2) by (intro mult_left_mono) simp_all
    moreover have "(1 - ?u) * (L + ?p) \<le> (1 - ?u) * (traits d True + traits d False + ?p)"
      using u0(1) t(1) by (intro mult_left_mono) simp_all
    moreover have "(1 + ?u) * (traits d True + traits d False + ?p) \<le> (1 + ?u) * (U + ?p)"
      using u0(2) t(2) by (intro mult_left_mono) simp_all
    ultimately show "(1 - ?u) * (L + ?p) \<le> gene d' 0 + gene d' 1 + gene d' 2 \<and>
             gene d' 0 + gene d' 1 + gene d' 2 \<le> (1 + ?u) * (U + ?p) \<and>
             (1 - ?u) * (L + ?p) \<le> traits d' True + traits d' False \<and>
             traits d' True + traits d' False \<le> (1 + ?u) * (U + ?p)"
      using 1 2 3 4 by linarith
  qed
  note IH = Cons.IH [OF ok b L' rest]
  have lo: "(1 - ?u) ^ Suc (length hs) * (L + (?p + ?S))
             \<le> (1 - ?u) ^ length hs * ((1 - ?u) * (L + ?p) + ?S)"
    using unit_roundoff_bounds S by (rule lower_step)
  have hi: "(1 + ?u) ^ length hs * ((1 + ?u) * (U + ?p) + ?S)
             \<le> (1 + ?u) ^ Suc (length hs) * (U + (?p + ?S))"
    using unit_roundoff_bounds(1) S by (rule upper_step)
  show ?case
  proof (clarify)
    fix person d
    assume "(person, d) \<in> set (fold (\<lambda>(one_gene, two_genes, have_trait) T.
                    update binary64 T (set one_gene) (set two_genes) (set have_trait)
                      (w one_gene two_genes have_trait)) (h # hs) T)"
    then have "(person, d) \<in> set (fold (\<lambda>(one_gene, two_genes, have_trait) T.
                    update binary64 T (set one_gene) (set two_genes) (set have_trait)
                      (w one_gene two_genes have_trait)) hs ?T)"
      unfolding h by simp
    with IH have
      "(1 - ?u) ^ length hs * ((1 - ?u) * (L + ?p) + ?S) \<le> gene d 0 + gene d 1 + gene d 2"
      "gene d 0 + gene d 1 + gene d 2 \<le> (1 + ?u) ^ length hs * ((1 + ?u) * (U + ?p) + ?S)"
      "(1 - ?u) ^ length hs * ((1 - ?u) * (L + ?p) + ?S) \<le> traits d True + traits d False"
      "traits d True + traits d False \<le> (1 + ?u) ^ length hs * ((1 + ?u) * (U + ?p) + ?S)"
      by auto
    with lo hi show
      "(1 - ?u) ^ length (h # hs)
              * (L + sum_list (map (\<lambda>(one_gene, two_genes, have_trait).
                                      w one_gene two_genes have_trait) (h # hs)))
             \<le> gene d 0 + gene d 1 + gene d 2 \<and>
           gene d 0 + gene d 1 + gene d 2
             \<le> (1 + ?u) ^ length (h # hs)
              * (U + sum_list (map (\<lambda>(one_gene, two_genes, have_trait).
                                      w one_gene two_genes have_trait) (h # hs))) \<and>
           (1 - ?u) ^ length (h # hs)
              * (L + sum_list (map (\<lambda>(one_gene, two_genes, have_trait).
                                      w one_gene two_genes have_trait) (h # hs)))
             \<le> traits d True + traits d False \<and>
           traits d True + traits d False
             \<le> (1 + ?u) ^ length (h # hs)
              * (U + sum_list (map (\<lambda>(one_gene, two_genes, have_trait).
                                      w one_gene two_genes have_trait) (h # hs)))"
      unfolding h by (simp del: power_Suc) 
  qed
qed

subsection \<open>\<^verbatim>\<open>powerset\<close> enumerates the power set\<close>

lemma combinations_filter:
  "combinations xs r = filter (\<lambda>ys. length ys = r) (subseqs xs)"
proof (induction xs r rule: combinations.induct)
  case (1 xs)
  show ?case by (induction xs) (simp_all add: Let_def filter_map comp_def)
next
  case (2 r)
  show ?case by simp
next
  case (3 x xs r)
  then show ?case by (simp add: Let_def filter_map comp_def)
qed

lemma length_subseqs_le: "ys \<in> set (subseqs xs) \<Longrightarrow> length ys \<le> length xs"
  by (induction xs arbitrary: ys) (auto simp add: Let_def le_SucI)

lemma sum_list_filter_less_Suc:
  fixes h :: "'a \<Rightarrow> 'b::comm_monoid_add"
  shows "sum_list (map h (filter (\<lambda>y. f y < Suc m) L))
           = sum_list (map h (filter (\<lambda>y. f y < m) L))
             + sum_list (map h (filter (\<lambda>y. f y = (m::nat)) L))"
  by (induction L) (auto simp add: less_Suc_eq ac_simps)

lemma sum_list_concat_filters:
  fixes h :: "'a \<Rightarrow> 'b::comm_monoid_add"
  shows "sum_list (map h (concat (map (\<lambda>r. filter (\<lambda>y. f y = r) L) [0 ..< m])))
           = sum_list (map h (filter (\<lambda>y. f y < m) L))"
proof (induction m)
  case 0
  show ?case by simp
next
  case (Suc m)
  then show ?case by (simp add: sum_list_filter_less_Suc)
qed

lemma sum_list_powerset_subseqs:
  fixes h :: "'a list \<Rightarrow> 'b::comm_monoid_add"
  shows "sum_list (map h (powerset xs)) = sum_list (map h (subseqs xs))"
proof -
  have "powerset xs = concat (map (\<lambda>r. filter (\<lambda>ys. length ys = r) (subseqs xs))
                                  [0 ..< length xs + 1])"
  proof -
    have "combinations xs = (\<lambda>r. filter (\<lambda>ys. length ys = r) (subseqs xs))"
      by (rule ext) (rule combinations_filter)
    then show ?thesis unfolding powerset_def by simp
  qed
  then have "sum_list (map h (powerset xs))
               = sum_list (map h (filter (\<lambda>ys. length ys < length xs + 1) (subseqs xs)))"
    by (simp only: sum_list_concat_filters)
  moreover have "filter (\<lambda>ys. length ys < length xs + 1) (subseqs xs) = subseqs xs"
    using length_subseqs_le [of _ xs] by (intro filter_True) (simp add: less_Suc_eq_le)
  ultimately show ?thesis by simp
qed

lemma sum_list_subseqs:
  fixes g :: "'a set \<Rightarrow> 'b::comm_monoid_add"
  assumes "distinct xs"
  shows "sum_list (map (\<lambda>ys. g (set ys)) (subseqs xs)) = sum g (Pow (set xs))"
  using assms
proof (induction xs arbitrary: g)
  case Nil
  show ?case by simp
next
  case (Cons x xs)
  then have x: "x \<notin> set xs" and d: "distinct xs" by simp_all
  have inj: "inj_on (insert x) (Pow (set xs))"
    using x by (auto simp add: inj_on_def) 
  have disj: "Pow (set xs) \<inter> insert x ` Pow (set xs) = {}"
    using x by auto
  have "sum_list (map (\<lambda>ys. g (set ys)) (subseqs (x # xs)))
          = sum_list (map (\<lambda>ys. g (insert x (set ys))) (subseqs xs))
            + sum_list (map (\<lambda>ys. g (set ys)) (subseqs xs))"
    by (simp add: Let_def comp_def)
  also have "\<dots> = sum (\<lambda>S. g (insert x S)) (Pow (set xs)) + sum g (Pow (set xs))"
    using Cons.IH [OF d, of "\<lambda>S. g (insert x S)"] Cons.IH [OF d, of g] by simp
  also have "sum (\<lambda>S. g (insert x S)) (Pow (set xs)) = sum g (insert x ` Pow (set xs))"
    using inj by (simp add: sum.reindex)
  also have "sum g (insert x ` Pow (set xs)) + sum g (Pow (set xs))
               = sum g (Pow (set xs) \<union> insert x ` Pow (set xs))"
    using disj by (simp add: sum.union_disjoint add.commute)
  also have "Pow (set xs) \<union> insert x ` Pow (set xs) = Pow (set (x # xs))"
    by (simp add: Pow_insert)
  finally show ?case .
qed

lemma sum_list_powerset:
  fixes g :: "'a set \<Rightarrow> 'b::comm_monoid_add"
  assumes "distinct xs"
  shows "sum_list (map (\<lambda>ys. g (set ys)) (powerset xs)) = sum g (Pow (set xs))"
  using sum_list_powerset_subseqs [of "\<lambda>ys. g (set ys)" xs] sum_list_subseqs [OF assms, of g]
  by simp

subsection \<open>The loops of \<^verbatim>\<open>main\<close> enumerate the hypotheses\<close>

lemma sum_list_map_concat:
  fixes f :: "'a \<Rightarrow> 'b::comm_monoid_add"
  shows "sum_list (map f (concat (map g xs))) = sum_list (map (\<lambda>x. sum_list (map f (g x))) xs)"
  by (induction xs) simp_all

lemma fails_evidence_consistent:
  "fails_evidence people have_trait \<longleftrightarrow> \<not> consistent people (set have_trait)"
  unfolding fails_evidence_def consistent_def list_ex_iff by fastforce

lemma set_set_minus: "set (set_minus s t) = set s - set t"
  by (auto simp add: set_minus_def)

lemma distinct_set_minus: "distinct s \<Longrightarrow> distinct (set_minus s t)"
  by (simp add: set_minus_def)

lemma consistent_hypotheses_image:
  "consistent_hypotheses people =
     (\<lambda>(have_trait, one_gene, two_genes). (one_gene, two_genes, have_trait)) `
       (SIGMA have_trait:{H \<in> Pow (fst ` set people). consistent people H}.
          SIGMA one_gene:Pow (fst ` set people). Pow (fst ` set people - one_gene))"
  unfolding consistent_hypotheses_def by (auto simp add: image_iff)

lemma sum_consistent_hypotheses:
  fixes F :: "string set \<Rightarrow> string set \<Rightarrow> string set \<Rightarrow> 'b::comm_monoid_add"
  shows "(\<Sum>(one_gene, two_genes, have_trait)\<in>consistent_hypotheses people.
            F one_gene two_genes have_trait)
         = (\<Sum>have_trait\<in>Pow (fst ` set people).
              if consistent people have_trait then
                (\<Sum>one_gene\<in>Pow (fst ` set people).
                   \<Sum>two_genes\<in>Pow (fst ` set people - one_gene).
                      F one_gene two_genes have_trait)
              else 0)"
proof -
  let ?N = "fst ` set people"
  let ?A = "{H \<in> Pow ?N. consistent people H}"
  let ?f = "\<lambda>(have_trait, one_gene, two_genes). (one_gene, two_genes, have_trait)"
  have fin: "finite ?N" by simp
  have inj: "inj_on ?f
      (SIGMA have_trait:?A. SIGMA one_gene:Pow ?N. Pow (?N - one_gene))"
    by (auto simp add: inj_on_def)
  have "(\<Sum>(one_gene, two_genes, have_trait)\<in>consistent_hypotheses people.
            F one_gene two_genes have_trait)
        = (\<Sum>(have_trait, one_gene, two_genes)\<in>
              (SIGMA have_trait:?A. SIGMA one_gene:Pow ?N. Pow (?N - one_gene)).
                F one_gene two_genes have_trait)"
    unfolding consistent_hypotheses_image sum.reindex [OF inj]
    by (simp add: case_prod_unfold comp_def)
  also have "\<dots> = (\<Sum>have_trait\<in>?A. \<Sum>(one_gene, two_genes)\<in>
                        (SIGMA one_gene:Pow ?N. Pow (?N - one_gene)).
                        F one_gene two_genes have_trait)"
    by (subst sum.Sigma [symmetric]) (auto simp add: case_prod_unfold)
  also have "\<dots> = (\<Sum>have_trait\<in>?A. \<Sum>one_gene\<in>Pow ?N. \<Sum>two_genes\<in>Pow (?N - one_gene).
                        F one_gene two_genes have_trait)"
    by (subst sum.Sigma [symmetric]) (auto simp add: case_prod_unfold)
  also have "\<dots> = (\<Sum>have_trait\<in>Pow ?N.
              if consistent people have_trait then
                (\<Sum>one_gene\<in>Pow ?N. \<Sum>two_genes\<in>Pow (?N - one_gene).
                      F one_gene two_genes have_trait)
              else 0)"
    by (rule sum.inter_filter) simp
  finally show ?thesis .
qed

lemma sum_list_hypotheses:
  fixes F :: "string set \<Rightarrow> string set \<Rightarrow> string set \<Rightarrow> 'b::comm_monoid_add"
  assumes "distinct (map fst people)"
  shows "sum_list (map (\<lambda>(one_gene, two_genes, have_trait).
                           F (set one_gene) (set two_genes) (set have_trait))
                       (hypotheses people))
         = (\<Sum>(one_gene, two_genes, have_trait)\<in>consistent_hypotheses people.
              F one_gene two_genes have_trait)"
proof -
  let ?names = "map fst people"
  let ?N = "fst ` set people"
  have N: "set ?names = ?N" by simp
  have inner: "sum_list (map (\<lambda>two_genes. F (set one_gene) (set two_genes) H)
                   (powerset (set_minus ?names one_gene)))
                 = (\<Sum>two_genes\<in>Pow (?N - set one_gene). F (set one_gene) two_genes H)"
    for one_gene H
    using sum_list_powerset [OF distinct_set_minus [OF assms, of one_gene],
        of "\<lambda>T. F (set one_gene) T H"]
    by (simp add: set_set_minus)
  have middle: "sum_list (map (\<lambda>one_gene.
                   \<Sum>two_genes\<in>Pow (?N - set one_gene). F (set one_gene) two_genes H)
                   (powerset ?names))
                 = (\<Sum>one_gene\<in>Pow ?N. \<Sum>two_genes\<in>Pow (?N - one_gene).
                      F one_gene two_genes H)"
    for H
    using sum_list_powerset [OF assms,
        of "\<lambda>S. \<Sum>two_genes\<in>Pow (?N - S). F S two_genes H"]
    by simp
  have "sum_list (map (\<lambda>(one_gene, two_genes, have_trait).
                           F (set one_gene) (set two_genes) (set have_trait))
                       (hypotheses people))
        = sum_list (map (\<lambda>have_trait.
              if consistent people (set have_trait) then
                (\<Sum>one_gene\<in>Pow ?N. \<Sum>two_genes\<in>Pow (?N - one_gene).
                      F one_gene two_genes (set have_trait))
              else 0) (powerset ?names))"
    unfolding hypotheses_def Let_def sum_list_map_concat
    by (rule arg_cong [where f = sum_list], rule map_cong [OF refl])
       (simp add: fails_evidence_consistent sum_list_map_concat comp_def inner middle)
  also have "\<dots> = (\<Sum>have_trait\<in>Pow ?N.
              if consistent people have_trait then
                (\<Sum>one_gene\<in>Pow ?N. \<Sum>two_genes\<in>Pow (?N - one_gene).
                      F one_gene two_genes have_trait)
              else 0)"
    using sum_list_powerset [OF assms,
        of "\<lambda>H. if consistent people H then
                (\<Sum>one_gene\<in>Pow ?N. \<Sum>two_genes\<in>Pow (?N - one_gene).
                      F one_gene two_genes H)
              else 0"]
    by simp
  finally show ?thesis by (simp only: sum_consistent_hypotheses)
qed

lemma length_hypotheses:
  assumes "distinct (map fst people)"
  shows "length (hypotheses people) = card (consistent_hypotheses people)"
proof -
  have "length (hypotheses people)
          = sum_list (map (\<lambda>(one_gene, two_genes, have_trait). 1::nat) (hypotheses people))"
    by (simp add: case_prod_unfold sum_list_triv)
  also have "\<dots> = (\<Sum>(one_gene, two_genes, have_trait)\<in>consistent_hypotheses people. 1)"
    using sum_list_hypotheses [OF assms, of "\<lambda>_ _ _. 1::nat"] by simp
  finally show ?thesis by (simp add: case_prod_unfold)
qed

subsection \<open>The sums of the weights\<close>

lemma abs_diff_between:
  fixes a b lo hi :: real
  assumes "lo \<le> a" and "a \<le> hi" and "lo \<le> b" and "b \<le> hi"
  shows "\<bar>a - b\<bar> \<le> hi - lo"
  using assms by linarith

text \<open>
  Claim C2, amended.  After the loops of \<^verbatim>\<open>main\<close> and before \<^verbatim>\<open>normalize\<close> the table has an
  entry for every person, and for each of them the sum of the three gene weights and the
  sum of the two trait weights equal the evidence mass up to rounding: with \<open>N\<close> hypotheses
  and the mass \<open>M\<close> of the joint probabilities that the program computes for them, both
  sums lie between \<open>(1 - 2\<^sup>-\<^sup>5\<^sup>3)\<^sup>N M\<close> and \<open>(1 + 2\<^sup>-\<^sup>5\<^sup>3)\<^sup>N M\<close>, the same bounds for
  everybody.  In exact arithmetic both sums are the evidence mass.
\<close>

theorem accumulated_sums_agree:
  assumes "distinct (map fst people)"
  shows "map fst (accumulate binary64 people) = map fst people \<and>
   (\<forall>(person, d)\<in>set (accumulate binary64 people).
       (1 - unit_roundoff) ^ card (consistent_hypotheses people) * evidence_mass binary64 people
         \<le> gene d 0 + gene d 1 + gene d 2 \<and>
       gene d 0 + gene d 1 + gene d 2
         \<le> (1 + unit_roundoff) ^ card (consistent_hypotheses people)
              * evidence_mass binary64 people \<and>
       (1 - unit_roundoff) ^ card (consistent_hypotheses people) * evidence_mass binary64 people
         \<le> traits d True + traits d False \<and>
       traits d True + traits d False
         \<le> (1 + unit_roundoff) ^ card (consistent_hypotheses people)
              * evidence_mass binary64 people \<and>
       \<bar>(gene d 0 + gene d 1 + gene d 2) - (traits d True + traits d False)\<bar>
         \<le> ((1 + unit_roundoff) ^ card (consistent_hypotheses people)
              - (1 - unit_roundoff) ^ card (consistent_hypotheses people))
             * evidence_mass binary64 people) \<and>
   map fst (accumulate exact people) = map fst people \<and>
   (\<forall>(person, d)\<in>set (accumulate exact people).
       gene d 0 + gene d 1 + gene d 2 = evidence_mass exact people \<and>
       traits d True + traits d False = evidence_mass exact people)"
proof -
  have mass: "sum_list (map (\<lambda>(one_gene, two_genes, have_trait).
                 joint_probability fl people (set one_gene) (set two_genes) (set have_trait))
               (hypotheses people)) = evidence_mass fl people" for fl
    unfolding evidence_mass_def
    using sum_list_hypotheses [OF assms, of "joint_probability fl people"] .
  have len: "length (hypotheses people) = card (consistent_hypotheses people)"
    using assms by (rule length_hypotheses)
  have z: "\<forall>(person, d)\<in>set (initial people).
             0 \<le> gene d 0 + gene d 1 + gene d 2 \<and> gene d 0 + gene d 1 + gene d 2 \<le> 0 \<and>
             0 \<le> traits d True + traits d False \<and> traits d True + traits d False \<le> 0"
    by (auto simp add: initial_def)
  have pos: "\<forall>(one_gene, two_genes, have_trait)\<in>set (hypotheses people).
      0 < joint_probability binary64 people (set one_gene) (set two_genes) (set have_trait)"
    by (simp add: joint_probability_pos case_prod_unfold)
  have z0: "(0::real) \<le> 0" by simp
  note b = fold_update_binary64_sums [OF initial_weights_ok z z0,
      of "hypotheses people"
         "\<lambda>one_gene two_genes have_trait.
            joint_probability binary64 people (set one_gene) (set two_genes) (set have_trait)",
      OF pos]
  have 1: "\<forall>(person, d)\<in>set (accumulate binary64 people).
       (1 - unit_roundoff) ^ card (consistent_hypotheses people) * evidence_mass binary64 people
         \<le> gene d 0 + gene d 1 + gene d 2 \<and>
       gene d 0 + gene d 1 + gene d 2
         \<le> (1 + unit_roundoff) ^ card (consistent_hypotheses people)
              * evidence_mass binary64 people \<and>
       (1 - unit_roundoff) ^ card (consistent_hypotheses people) * evidence_mass binary64 people
         \<le> traits d True + traits d False \<and>
       traits d True + traits d False
         \<le> (1 + unit_roundoff) ^ card (consistent_hypotheses people)
              * evidence_mass binary64 people"
    using b unfolding accumulate_def [symmetric] mass len by simp
  have 1: "\<forall>(person, d)\<in>set (accumulate binary64 people).
       (1 - unit_roundoff) ^ card (consistent_hypotheses people) * evidence_mass binary64 people
         \<le> gene d 0 + gene d 1 + gene d 2 \<and>
       gene d 0 + gene d 1 + gene d 2
         \<le> (1 + unit_roundoff) ^ card (consistent_hypotheses people)
              * evidence_mass binary64 people \<and>
       (1 - unit_roundoff) ^ card (consistent_hypotheses people) * evidence_mass binary64 people
         \<le> traits d True + traits d False \<and>
       traits d True + traits d False
         \<le> (1 + unit_roundoff) ^ card (consistent_hypotheses people)
              * evidence_mass binary64 people \<and>
       \<bar>(gene d 0 + gene d 1 + gene d 2) - (traits d True + traits d False)\<bar>
         \<le> ((1 + unit_roundoff) ^ card (consistent_hypotheses people)
              - (1 - unit_roundoff) ^ card (consistent_hypotheses people))
             * evidence_mass binary64 people"
  proof (clarify)
    fix person d
    assume "(person, d) \<in> set (accumulate binary64 people)"
    with 1 have
      g: "(1 - unit_roundoff) ^ card (consistent_hypotheses people)
            * evidence_mass binary64 people \<le> gene d 0 + gene d 1 + gene d 2"
         "gene d 0 + gene d 1 + gene d 2
            \<le> (1 + unit_roundoff) ^ card (consistent_hypotheses people)
                * evidence_mass binary64 people"
      and t: "(1 - unit_roundoff) ^ card (consistent_hypotheses people)
            * evidence_mass binary64 people \<le> traits d True + traits d False"
         "traits d True + traits d False
            \<le> (1 + unit_roundoff) ^ card (consistent_hypotheses people)
                * evidence_mass binary64 people"
      by auto
    have "\<bar>(gene d 0 + gene d 1 + gene d 2) - (traits d True + traits d False)\<bar>
         \<le> (1 + unit_roundoff) ^ card (consistent_hypotheses people)
              * evidence_mass binary64 people
            - (1 - unit_roundoff) ^ card (consistent_hypotheses people)
              * evidence_mass binary64 people"
      using g t by (rule abs_diff_between)
    then have "\<bar>(gene d 0 + gene d 1 + gene d 2) - (traits d True + traits d False)\<bar>
         \<le> ((1 + unit_roundoff) ^ card (consistent_hypotheses people)
              - (1 - unit_roundoff) ^ card (consistent_hypotheses people))
             * evidence_mass binary64 people"
      by (simp only: left_diff_distrib)
    with g t show
      "(1 - unit_roundoff) ^ card (consistent_hypotheses people) * evidence_mass binary64 people
         \<le> gene d 0 + gene d 1 + gene d 2 \<and>
       gene d 0 + gene d 1 + gene d 2
         \<le> (1 + unit_roundoff) ^ card (consistent_hypotheses people)
              * evidence_mass binary64 people \<and>
       (1 - unit_roundoff) ^ card (consistent_hypotheses people) * evidence_mass binary64 people
         \<le> traits d True + traits d False \<and>
       traits d True + traits d False
         \<le> (1 + unit_roundoff) ^ card (consistent_hypotheses people)
              * evidence_mass binary64 people \<and>
       \<bar>(gene d 0 + gene d 1 + gene d 2) - (traits d True + traits d False)\<bar>
         \<le> ((1 + unit_roundoff) ^ card (consistent_hypotheses people)
              - (1 - unit_roundoff) ^ card (consistent_hypotheses people))
             * evidence_mass binary64 people"
      by blast
  qed
  have e0: "\<forall>(person, d)\<in>set (initial people). gene d 0 + gene d 1 + gene d 2 = 0 \<and>
                                traits d True + traits d False = 0"
    by (auto simp add: initial_def)
  from fold_update_exact_sums [OF e0,
      of "\<lambda>one_gene two_genes have_trait.
            joint_probability exact people (set one_gene) (set two_genes) (set have_trait)"
         "hypotheses people"]
  have 2: "\<forall>(person, d)\<in>set (accumulate exact people).
       gene d 0 + gene d 1 + gene d 2 = evidence_mass exact people \<and>
       traits d True + traits d False = evidence_mass exact people"
    unfolding accumulate_def [symmetric] mass by simp
  from 1 2 show ?thesis by (simp add: accumulate_keys)
qed

lemma single_founder_count:
  "card (consistent_hypotheses (single_founder n)) = 6"
proof -
  have "distinct (map fst (single_founder n))" by (simp add: single_founder_def)
  from length_hypotheses [OF this] show ?thesis
    by (simp add: hypotheses_single_founder)
qed

theorem accumulated_sums_agree_witness:
  "distinct (map fst (single_founder ''Harry'')) \<and>
   card (consistent_hypotheses (single_founder ''Harry'')) = 6 \<and>
   accumulate binary64 (single_founder ''Harry'') = [(''Harry'', founder_weights_binary64)] \<and>
   (1 - unit_roundoff) ^ 6 * evidence_mass binary64 (single_founder ''Harry'')
     \<le> gene founder_weights_binary64 0 + gene founder_weights_binary64 1
         + gene founder_weights_binary64 2 \<and>
   traits founder_weights_binary64 True + traits founder_weights_binary64 False
     \<le> (1 + unit_roundoff) ^ 6 * evidence_mass binary64 (single_founder ''Harry'') \<and>
   accumulate exact (single_founder ''Harry'') = [(''Harry'', founder_weights_exact)] \<and>
   evidence_mass exact (single_founder ''Harry'') = 1"
proof -
  have d: "distinct (map fst (single_founder ''Harry''))" by (simp add: single_founder_def)
  from accumulated_sums_agree [OF d] show ?thesis
    unfolding accumulate_single_founder_binary64 accumulate_single_founder_exact
      single_founder_count
    using d by (simp add: founder_weights_exact_def)
qed

end
